theory Spec2Isabelle
  imports Complex_Main
begin

section \<open>Numbers and arrays\<close>

text \<open>
  The program computes with NumPy double precision numbers. They are idealised here:
  a finite number is an exact real (no rounding, no overflow, zero carries no sign), and
  the three special values that NumPy produces instead of raising (division by zero and
  the square root of a negative number only warn) are values of their own. Every
  statement below is a statement over this exact arithmetic.
\<close>

datatype npfloat = Fin real | PInf | NInf | NaN

fun np_neg :: "npfloat \<Rightarrow> npfloat" where
  "np_neg (Fin x) = Fin (- x)"
| "np_neg PInf = NInf"
| "np_neg NInf = PInf"
| "np_neg NaN = NaN"

fun np_abs :: "npfloat \<Rightarrow> npfloat" where
  "np_abs (Fin x) = Fin \<bar>x\<bar>"
| "np_abs PInf = PInf"
| "np_abs NInf = PInf"
| "np_abs NaN = NaN"

fun np_add :: "npfloat \<Rightarrow> npfloat \<Rightarrow> npfloat" where
  "np_add (Fin x) (Fin y) = Fin (x + y)"
| "np_add NaN _ = NaN"
| "np_add _ NaN = NaN"
| "np_add PInf NInf = NaN"
| "np_add NInf PInf = NaN"
| "np_add PInf _ = PInf"
| "np_add _ PInf = PInf"
| "np_add NInf _ = NInf"
| "np_add _ NInf = NInf"

definition np_sub :: "npfloat \<Rightarrow> npfloat \<Rightarrow> npfloat" where
  "np_sub a b = np_add a (np_neg b)"

fun np_mul :: "npfloat \<Rightarrow> npfloat \<Rightarrow> npfloat" where
  "np_mul (Fin x) (Fin y) = Fin (x * y)"
| "np_mul NaN _ = NaN"
| "np_mul _ NaN = NaN"
| "np_mul (Fin x) PInf = (if x = 0 then NaN else if 0 < x then PInf else NInf)"
| "np_mul (Fin x) NInf = (if x = 0 then NaN else if 0 < x then NInf else PInf)"
| "np_mul PInf (Fin y) = (if y = 0 then NaN else if 0 < y then PInf else NInf)"
| "np_mul NInf (Fin y) = (if y = 0 then NaN else if 0 < y then NInf else PInf)"
| "np_mul PInf PInf = PInf"
| "np_mul PInf NInf = NInf"
| "np_mul NInf PInf = NInf"
| "np_mul NInf NInf = PInf"

fun np_div :: "npfloat \<Rightarrow> npfloat \<Rightarrow> npfloat" where
  "np_div (Fin x) (Fin y) =
     (if y = 0 then (if x = 0 then NaN else if 0 < x then PInf else NInf) else Fin (x / y))"
| "np_div NaN _ = NaN"
| "np_div _ NaN = NaN"
| "np_div (Fin x) PInf = Fin 0"
| "np_div (Fin x) NInf = Fin 0"
| "np_div PInf (Fin y) = (if 0 \<le> y then PInf else NInf)"
| "np_div NInf (Fin y) = (if 0 \<le> y then NInf else PInf)"
| "np_div PInf PInf = NaN"
| "np_div PInf NInf = NaN"
| "np_div NInf PInf = NaN"
| "np_div NInf NInf = NaN"

text \<open>\<^verbatim>\<open>x**2\<close> on a NumPy number.\<close>

definition np_pow2 :: "npfloat \<Rightarrow> npfloat" where
  "np_pow2 x = np_mul x x"

text \<open>\<^verbatim>\<open>np.sqrt\<close>: the root of a negative number is NaN (a warning, no exception).\<close>

fun np_sqrt :: "npfloat \<Rightarrow> npfloat" where
  "np_sqrt (Fin x) = (if x < 0 then NaN else Fin (sqrt x))"
| "np_sqrt PInf = PInf"
| "np_sqrt NInf = NaN"
| "np_sqrt NaN = NaN"

text \<open>Comparison: every comparison with NaN is false.\<close>

fun np_less :: "npfloat \<Rightarrow> npfloat \<Rightarrow> bool" where
  "np_less (Fin x) (Fin y) = (x < y)"
| "np_less NaN _ = False"
| "np_less _ NaN = False"
| "np_less _ NInf = False"
| "np_less PInf _ = False"
| "np_less NInf _ = True"
| "np_less _ PInf = True"

datatype error = ValueError | IndexError | KeyError | UnboundLocalError | TypeError | LinAlgError

text \<open>
  Python's builtin \<^verbatim>\<open>sum\<close> and \<^verbatim>\<open>np.sum\<close> over a one-dimensional array: the
  elements are added to zero from the left (over exact arithmetic the order of the
  additions does not matter).
\<close>

definition py_sum :: "npfloat list \<Rightarrow> npfloat" where
  "py_sum xs = foldl np_add (Fin 0) xs"

text \<open>
  An arithmetic operator between two one-dimensional arrays: elementwise on equal lengths,
  an array of length one is broadcast, any other pair of shapes raises ValueError.
\<close>

definition broadcast :: "(npfloat \<Rightarrow> npfloat \<Rightarrow> npfloat) \<Rightarrow> npfloat list \<Rightarrow> npfloat list
    \<Rightarrow> error + npfloat list" where
  "broadcast f xs ys =
     (if length xs = length ys then Inr (map2 f xs ys)
      else if length xs = 1 then Inr (map (f (hd xs)) ys)
      else if length ys = 1 then Inr (map (\<lambda>x. f x (hd ys)) xs)
      else Inl ValueError)"

text \<open>\<^verbatim>\<open>np.ones(n)\<close>: a negative length raises ValueError.\<close>

definition np_ones :: "int \<Rightarrow> error + npfloat list" where
  "np_ones n = (if n < 0 then Inl ValueError else Inr (replicate (nat n) (Fin 1)))"

text \<open>
  \<^verbatim>\<open>np.linspace(start, stop, num)\<close> with its default \<^verbatim>\<open>endpoint=True\<close>: \<^verbatim>\<open>num\<close>
  samples \<^verbatim>\<open>start + i * step\<close> with \<^verbatim>\<open>step = (stop - start) / (num - 1)\<close>, the last one
  set to \<^verbatim>\<open>stop\<close>; a single sample is \<^verbatim>\<open>start\<close>; a negative \<^verbatim>\<open>num\<close> raises
  ValueError.
\<close>

definition linspace :: "npfloat \<Rightarrow> npfloat \<Rightarrow> int \<Rightarrow> error + npfloat list" where
  "linspace start stop num =
     (if num < 0 then Inl ValueError
      else
        let n = nat num;
            dv = num - 1;
            delta = np_sub stop start;
            y = (if 0 < dv then
                   (let step = np_div delta (Fin (of_int dv)) in
                      if step = Fin 0
                      then map (\<lambda>i. np_mul (np_div (Fin (of_nat i)) (Fin (of_int dv))) delta) [0..<n]
                      else map (\<lambda>i. np_mul (Fin (of_nat i)) step) [0..<n])
                 else map (\<lambda>i. np_mul (Fin (of_nat i)) delta) [0..<n]);
            y' = map (\<lambda>v. np_add v start) y
        in Inr (if 1 < num then y'[n - 1 := stop] else y'))"

section \<open>The configuration and the persistence sinks\<close>

text \<open>
  The dictionary \<^verbatim>\<open>para\<close> written by \<^verbatim>\<open>iomodul.read_schrodinger_inp\<close>. The key
  \<^verbatim>\<open>Delta\<close> is absent until \<^verbatim>\<open>_write_hamiltonian\<close> stores it.
\<close>

record para =
  directory :: string
  interpolation_type :: string
  interpolation_points_number :: int
  interpolation_points_x :: "real list"
  interpolation_points_y :: "real list"
  xMin :: real
  xMax :: real
  nPoints :: int
  mass :: real
  first_eigenvalue :: int
  last_eigenvalue :: int
  Delta :: "npfloat option"

text \<open>
  Modelled from the spec: the module \<^verbatim>\<open>iomodul\<close> with the four writers
  \<^verbatim>\<open>write_potential\<close>, \<^verbatim>\<open>write_eigenvalues\<close>, \<^verbatim>\<open>write_eigenvectors\<close> and
  \<^verbatim>\<open>write_expectation_values\<close> is not among the sources. The spec describes each as a
  pure sink taking arrays and a directory and returning nothing observable to the
  pipeline, so a call is recorded, with its arguments, in a log of sink calls.
\<close>

datatype sink_call =
    Write_potential "npfloat list" "npfloat list" string
  | Write_eigenvalues "npfloat list" string
  | Write_eigenvectors "npfloat list list" "npfloat list" string
  | Write_expectation_values "npfloat list" "npfloat list" string

text \<open>
  The routines of SciPy and NumPy that are numerical algorithms of their own (the
  natural cubic spline, the least-squares polynomial fit and the LAPACK eigensolver for
  symmetric tridiagonal matrices) are parameters of the model: nothing is assumed
  about what they return, only that they return a value or raise.
\<close>

record lib =
  CubicSpline :: "real list \<Rightarrow> real list \<Rightarrow> error + (npfloat \<Rightarrow> npfloat)"
  polyfit :: "real list \<Rightarrow> real list \<Rightarrow> int \<Rightarrow> error + npfloat list"
  eigh_tridiagonal :: "npfloat list \<Rightarrow> npfloat list \<Rightarrow> int \<times> int
    \<Rightarrow> error + npfloat list \<times> npfloat list list"

section \<open>Interpolation of the potential\<close>

text \<open>
  \<^verbatim>\<open>scipy.interpolate.interp1d(x, y)\<close> with the defaults the program leaves in place:
  \<^verbatim>\<open>kind='linear'\<close>, \<^verbatim>\<open>assume_sorted=False\<close> (the points are sorted by \<^verbatim>\<open>x\<close>, stably)
  and \<^verbatim>\<open>bounds_error\<close> on, so that a call raises ValueError as soon as one new point is
  below the first or above the last control point. A value is computed as SciPy's
  \<^verbatim>\<open>_call_linear\<close> does: the insertion index of the new point, clipped to
  \<^verbatim>\<open>1 .. len(x)-1\<close>, selects the segment.
\<close>

definition searchsorted :: "real list \<Rightarrow> npfloat \<Rightarrow> nat" where
  "searchsorted xs v =
     (case v of Fin a \<Rightarrow> length (takeWhile (\<lambda>x. x < a) xs) | NInf \<Rightarrow> 0 | _ \<Rightarrow> length xs)"

text \<open>Python indexing: a negative index counts from the end.\<close>

definition py_index :: "real list \<Rightarrow> int \<Rightarrow> real" where
  "py_index xs i = xs ! nat (if i < 0 then i + int (length xs) else i)"

definition call_linear :: "real list \<Rightarrow> real list \<Rightarrow> npfloat \<Rightarrow> npfloat" where
  "call_linear xs ys x_new =
     (let idx = min (max (int (searchsorted xs x_new)) 1) (int (length xs) - 1);
          lo = idx - 1;
          hi = idx;
          x_lo = py_index xs lo;
          x_hi = py_index xs hi;
          y_lo = py_index ys lo;
          y_hi = py_index ys hi;
          slope = np_div (Fin (y_hi - y_lo)) (Fin (x_hi - x_lo))
      in np_add (np_mul slope (np_sub x_new (Fin x_lo))) (Fin y_lo))"

definition interp1d :: "real list \<Rightarrow> real list \<Rightarrow> error + (npfloat list \<Rightarrow> error + npfloat list)" where
  "interp1d x y =
     (if length x \<noteq> length y \<or> length x < 1 then Inl ValueError
      else
        let ps = sort_key fst (zip x y);
            xs = map fst ps;
            ys = map snd ps
        in Inr (\<lambda>x_new.
             if (\<exists>v \<in> set x_new. np_less v (Fin (hd xs))) \<or> (\<exists>v \<in> set x_new. np_less (Fin (last xs)) v)
             then Inl ValueError
             else Inr (map (call_linear xs ys) x_new)))"

text \<open>
  \<^verbatim>\<open>np.poly1d(c)(x)\<close>: leading zero coefficients are dropped, the value is computed by
  Horner's rule.
\<close>

definition poly1d :: "npfloat list \<Rightarrow> npfloat \<Rightarrow> npfloat" where
  "poly1d c x =
     foldl (\<lambda>y pv. np_add (np_mul y x) pv) (Fin 0)
       (case dropWhile (\<lambda>v. v = Fin 0) c of [] \<Rightarrow> [Fin 0] | v # vs \<Rightarrow> v # vs)"

text \<open>
  \<^verbatim>\<open>interpolate_potential(para)\<close>. The chain of \<^verbatim>\<open>if\<close>/\<^verbatim>\<open>elif\<close> has no \<^verbatim>\<open>else\<close>:
  for any other method name the variable \<^verbatim>\<open>interpolation_fun\<close> is unbound when it is
  called, which raises UnboundLocalError. The result is the returned potential, or the
  exception, together with the sink calls made.
\<close>

definition interpolate_potential :: "lib \<Rightarrow> para \<Rightarrow> (error + npfloat list) \<times> sink_call list" where
  "interpolate_potential lib p =
     (let x_points = interpolation_points_x p;
          y_points = interpolation_points_y p
      in case linspace (Fin (xMin p)) (Fin (xMax p)) (nPoints p) of
           Inl e \<Rightarrow> (Inl e, [])
         | Inr xaxis \<Rightarrow>
             (case (if interpolation_type p = ''linear'' then
                      map_sum id Some (interp1d x_points y_points)
                    else if interpolation_type p = ''cspline'' then
                      map_sum id (\<lambda>s. Some (\<lambda>xs. Inr (map s xs)))
                        (CubicSpline lib x_points y_points)
                    else if interpolation_type p = ''polynomial'' then
                      map_sum id (\<lambda>fun_args. Some (\<lambda>xs. Inr (map (poly1d fun_args) xs)))
                        (polyfit lib x_points y_points (interpolation_points_number p - 1))
                    else Inr None) of
                Inl e \<Rightarrow> (Inl e, [])
              | Inr None \<Rightarrow> (Inl UnboundLocalError, [])
              | Inr (Some interpolation_fun) \<Rightarrow>
                  (case interpolation_fun xaxis of
                     Inl e \<Rightarrow> (Inl e, [])
                   | Inr potential \<Rightarrow>
                       (Inr potential, [Write_potential xaxis potential (directory p)]))))"

section \<open>The Hamiltonian\<close>

text \<open>
  \<^verbatim>\<open>_write_hamiltonian(para)\<close>. The dictionary is changed in place, so the result carries
  the dictionary as the function leaves it.
\<close>

definition write_hamiltonian ::
    "lib \<Rightarrow> para \<Rightarrow> (error + npfloat list \<times> npfloat list) \<times> para \<times> sink_call list" where
  "write_hamiltonian lib p =
     (case interpolate_potential lib p of
        (Inl e, ws) \<Rightarrow> (Inl e, p, ws)
      | (Inr potential, ws) \<Rightarrow>
          (let delta = np_div (np_abs (Fin (xMax p - xMin p))) (Fin (of_int (nPoints p)));
               p' = p\<lparr>Delta := Some delta\<rparr>;
               aa = np_div (Fin 1) (np_mul (Fin (mass p)) (np_pow2 delta));
               hamiltonian_diag = map (np_add aa) potential
           in case np_ones (nPoints p - 1) of
                Inl e \<Rightarrow> (Inl e, p', ws)
              | Inr ones \<Rightarrow>
                  (Inr (hamiltonian_diag, map (np_mul (np_div (np_neg aa) (Fin 2))) ones), p', ws)))"

section \<open>Normalisation of the eigenvectors\<close>

text \<open>
  The eigenvectors are a two-dimensional array, the list of its rows: row \<open>r\<close> holds the
  component at grid point \<open>r\<close> of every eigenvector, column \<open>ii\<close> is eigenvector \<open>ii\<close>.
\<close>

definition ndarray2 :: "nat \<Rightarrow> nat \<Rightarrow> 'a list list \<Rightarrow> bool" where
  "ndarray2 n m E = (length E = n \<and> (\<forall>row \<in> set E. length row = m))"

text \<open>\<^verbatim>\<open>E[:, ii]\<close>, the slice \<^verbatim>\<open>[1:-1]\<close> and the assignment \<^verbatim>\<open>E[:, ii] = col\<close>.\<close>

definition column :: "'a list list \<Rightarrow> nat \<Rightarrow> 'a list" where
  "column E ii = map (\<lambda>row. row ! ii) E"

definition interior :: "'a list \<Rightarrow> 'a list" where
  "interior xs = butlast (tl xs)"

definition set_column :: "'a list list \<Rightarrow> nat \<Rightarrow> 'a list \<Rightarrow> 'a list list" where
  "set_column E ii col = map2 (\<lambda>row v. row[ii := v]) E col"

text \<open>The value \<^verbatim>\<open>eigenvector_norm\<close> of the loop body, for column \<open>ii\<close>.\<close>

definition eigenvector_norm :: "npfloat \<Rightarrow> npfloat list list \<Rightarrow> nat \<Rightarrow> npfloat" where
  "eigenvector_norm delta E ii =
     np_mul delta (py_sum (map (\<lambda>v. np_pow2 (np_abs v)) (column (interior E) ii)))"

fun norm_loop :: "nat list \<Rightarrow> npfloat list list \<Rightarrow> para \<Rightarrow> error + npfloat list list" where
  "norm_loop [] E p = Inr E"
| "norm_loop (ii # iis) E p =
     (case Delta p of
        None \<Rightarrow> Inl KeyError
      | Some delta \<Rightarrow>
          norm_loop iis
            (set_column E ii
               (map (\<lambda>v. np_div v (np_sqrt (eigenvector_norm delta E ii))) (column E ii)))
            p)"

text \<open>\<^verbatim>\<open>_norm_eigenvectors(eigenvectors, para)\<close>.\<close>

definition norm_eigenvectors :: "npfloat list list \<Rightarrow> para \<Rightarrow> error + npfloat list list" where
  "norm_eigenvectors E p =
     (case E of [] \<Rightarrow> Inl IndexError | row0 # _ \<Rightarrow> norm_loop [0..<length row0] E p)"

section \<open>Expectation values\<close>

text \<open>
  The expression \<^verbatim>\<open>delta*np.sum(eigenvectors[1:-1, ii]**2*xs)\<close>, with \<^verbatim>\<open>xs\<close> the
  coordinates \<^verbatim>\<open>x_i\<close> or their squares. The product of the two arrays raises
  ValueError when their shapes do not fit.
\<close>

definition position_moment :: "npfloat \<Rightarrow> npfloat list \<Rightarrow> npfloat list list \<Rightarrow> nat
    \<Rightarrow> error + npfloat" where
  "position_moment delta xs E ii =
     (case broadcast np_mul (map np_pow2 (column (interior E) ii)) xs of
        Inl e \<Rightarrow> Inl e
      | Inr a \<Rightarrow> Inr (np_mul delta (py_sum a)))"

fun expectation_loop :: "npfloat \<Rightarrow> npfloat list \<Rightarrow> npfloat list list \<Rightarrow> nat list
    \<Rightarrow> npfloat list \<times> npfloat list \<times> npfloat list
    \<Rightarrow> error + npfloat list \<times> npfloat list \<times> npfloat list" where
  "expectation_loop delta x_i E [] st = Inr st"
| "expectation_loop delta x_i E (ii # iis) (expval, expval_squared, uncertainty) =
     (case position_moment delta x_i E ii of
        Inl e \<Rightarrow> Inl e
      | Inr ev \<Rightarrow>
          (case position_moment delta (map np_pow2 x_i) E ii of
             Inl e \<Rightarrow> Inl e
           | Inr ev2 \<Rightarrow>
               expectation_loop delta x_i E iis
                 (expval[ii := ev], expval_squared[ii := ev2],
                  uncertainty[ii := np_sqrt (np_sub ev2 (np_pow2 ev))])))"

text \<open>
  \<^verbatim>\<open>expectation_values(para, eigenvectors)\<close>. The function returns nothing: its output
  is the call of \<^verbatim>\<open>iomodul.write_expectation_values\<close>.
\<close>

definition expectation_values :: "para \<Rightarrow> npfloat list list \<Rightarrow> (error + unit) \<times> sink_call list" where
  "expectation_values p E =
     (case E of
        [] \<Rightarrow> (Inl IndexError, [])
      | row0 # _ \<Rightarrow>
          (let zeros = replicate (length row0) (Fin 0) in
           case Delta p of
             None \<Rightarrow> (Inl KeyError, [])
           | Some delta \<Rightarrow>
               (case linspace (np_add (Fin (xMin p)) delta) (np_sub (Fin (xMax p)) delta)
                       (nPoints p - 2) of
                  Inl e \<Rightarrow> (Inl e, [])
                | Inr x_i \<Rightarrow>
                    (case expectation_loop delta x_i E [0..<length row0] (zeros, zeros, zeros) of
                       Inl e \<Rightarrow> (Inl e, [])
                     | Inr (expval, expval_squared, uncertainty) \<Rightarrow>
                         (Inr (), [Write_expectation_values expval uncertainty (directory p)])))))"

section \<open>The solver\<close>

text \<open>\<^verbatim>\<open>solve_hamiltonian(para)\<close>.\<close>

definition solve_hamiltonian ::
    "lib \<Rightarrow> para \<Rightarrow> (error + npfloat list \<times> npfloat list list) \<times> para \<times> sink_call list" where
  "solve_hamiltonian lib p =
     (case write_hamiltonian lib p of
        (Inl e, p', ws) \<Rightarrow> (Inl e, p', ws)
      | (Inr (hamiltonian_diag, hamiltonian_offdiag), p', ws) \<Rightarrow>
          (case eigh_tridiagonal lib hamiltonian_diag hamiltonian_offdiag
                  (first_eigenvalue p' - 1, last_eigenvalue p' - 1) of
             Inl e \<Rightarrow> (Inl e, p', ws)
           | Inr (eigenvalues, eigenvectors) \<Rightarrow>
               (case norm_eigenvectors eigenvectors p' of
                  Inl e \<Rightarrow> (Inl e, p', ws)
                | Inr eigenvectors' \<Rightarrow>
                    (let ws' = ws @ [Write_eigenvalues eigenvalues (directory p')] in
                     case linspace (Fin (xMin p')) (Fin (xMax p')) (nPoints p') of
                       Inl e \<Rightarrow> (Inl e, p', ws')
                     | Inr xaxis \<Rightarrow>
                         (Inr (eigenvalues, eigenvectors'), p',
                          ws' @ [Write_eigenvectors eigenvectors' xaxis (directory p')])))))"

section \<open>Notions used in the statements\<close>

text \<open>An array of finite numbers, given by its real entries.\<close>

definition fin_array :: "real list list \<Rightarrow> npfloat list list" where
  "fin_array R = map (map Fin) R"

text \<open>
  The array after the first \<open>k\<close> passes of the normalisation loop, and the array of
  real entries after all of them.
\<close>

definition normalized_upto :: "nat \<Rightarrow> npfloat \<Rightarrow> npfloat list list \<Rightarrow> npfloat list list" where
  "normalized_upto k d E =
     map (\<lambda>row. map (\<lambda>c. if c < k then np_div (row ! c) (np_sqrt (eigenvector_norm d E c)) else row ! c)
                  [0..<length row]) E"

definition scaled :: "real \<Rightarrow> real list list \<Rightarrow> real list list" where
  "scaled \<delta> R =
     map (\<lambda>row. map (\<lambda>c. row ! c / sqrt (\<delta> * (\<Sum>r\<leftarrow>interior R. (r ! c)\<^sup>2))) [0..<length row]) R"

text \<open>
  The symmetric tridiagonal matrix with diagonal \<open>d\<close> and off-diagonal \<open>e\<close>: row \<open>i\<close>
  of its product with a vector, and what it means for a vector to be an eigenvector for
  the eigenvalue \<open>lam\<close>.
\<close>

definition tridiag_row :: "real list \<Rightarrow> real list \<Rightarrow> real list \<Rightarrow> nat \<Rightarrow> real" where
  "tridiag_row d e v i =
     (if 0 < i then e ! (i - 1) * v ! (i - 1) else 0) + d ! i * v ! i
     + (if Suc i < length d then e ! i * v ! Suc i else 0)"

definition eigenvector :: "real list \<Rightarrow> real list \<Rightarrow> real \<Rightarrow> real list \<Rightarrow> bool" where
  "eigenvector d e lam v =
     (length v = length d \<and> (\<exists>i \<in> {0..<length v}. v ! i \<noteq> 0)
      \<and> (\<forall>i \<in> {0..<length d}. tridiag_row d e v i = lam * v ! i))"

text \<open>
  The value at \<open>x\<close> of the straight line through the control points \<open>j\<close> and \<open>j + 1\<close>.
\<close>

definition segment_value :: "real list \<Rightarrow> real list \<Rightarrow> nat \<Rightarrow> real \<Rightarrow> real" where
  "segment_value xs ys j x = (ys ! Suc j - ys ! j) / (xs ! Suc j - xs ! j) * (x - xs ! j) + ys ! j"

text \<open>
  A configuration and library routines to evaluate the model on: four grid points on
  \<open>[0, 4]\<close>, a flat potential given by two control points, unit mass; the spline, the
  polynomial fit and the eigensolver of these library routines raise.
\<close>

definition para0 :: para where
  "para0 = \<lparr>directory = ''out'', interpolation_type = ''linear'',
            interpolation_points_number = 2,
            interpolation_points_x = [0, 4], interpolation_points_y = [0, 0],
            xMin = 0, xMax = 4, nPoints = 4, mass = 1,
            first_eigenvalue = 1, last_eigenvalue = 1, Delta = None\<rparr>"

definition lib0 :: lib where
  "lib0 = \<lparr>CubicSpline = (\<lambda>x y. Inl ValueError), polyfit = (\<lambda>x y deg. Inl ValueError),
           eigh_tridiagonal = (\<lambda>d e r. Inl LinAlgError)\<rparr>"

text \<open>
  A second configuration, with three grid points on \<open>[0, 3]\<close>, asking for the second
  eigenvalue; and library routines whose eigensolver knows one eigenpair of one matrix:
  the eigenvalue \<open>1\<close> of the matrix with diagonal \<open>1, 1, 1\<close> and off-diagonal
  \<open>-1/2, -1/2\<close>, with its unit eigenvector \<open>(1, 0, -1) / sqrt 2\<close>.
\<close>

definition para3 :: para where
  "para3 = para0\<lparr>xMax := 3, nPoints := 3, first_eigenvalue := 2, last_eigenvalue := 2\<rparr>"

definition lib3 :: lib where
  "lib3 = lib0\<lparr>eigh_tridiagonal := (\<lambda>d e r.
      if d = [Fin 1, Fin 1, Fin 1] \<and> e = [Fin (- 1 / 2), Fin (- 1 / 2)] \<and> r = (1, 1)
      then Inr ([Fin 1], [[Fin (1 / sqrt 2)], [Fin 0], [Fin (- (1 / sqrt 2))]])
      else Inl LinAlgError)\<rparr>"

text \<open>
  The spectrum of the symmetric tridiagonal matrix with diagonal \<open>d\<close> and off-diagonal
  \<open>e\<close>: \<open>lam\<close> is an eigenvalue when it has an eigenvector, and it is the \<open>k\<close>-th smallest
  eigenvalue (\<open>k\<close> counted from 1) when exactly \<open>k - 1\<close> eigenvalues are smaller.
\<close>

definition is_eigenvalue :: "real list \<Rightarrow> real list \<Rightarrow> real \<Rightarrow> bool" where
  "is_eigenvalue d e lam = (\<exists>v. eigenvector d e lam v)"

definition nth_smallest_eigenvalue :: "real list \<Rightarrow> real list \<Rightarrow> nat \<Rightarrow> real \<Rightarrow> bool" where
  "nth_smallest_eigenvalue d e k lam =
     (is_eigenvalue d e lam \<and> finite {mu. is_eigenvalue d e mu \<and> mu < lam}
      \<and> Suc (card {mu. is_eigenvalue d e mu \<and> mu < lam}) = k)"

text \<open>
  What SciPy documents for \<^verbatim>\<open>eigh_tridiagonal(d, e, select='i', select_range=(lo, hi))\<close>:
  the eigenvalues with the 0-based indices \<open>lo, \<dots>, hi\<close> of the ascending spectrum, in
  ascending order, and an array with one row per matrix row whose column \<open>i\<close> is an
  eigenvector for the \<open>i\<close>-th value returned. The library routines \<open>lib\<close> meet this
  contract on the matrix \<open>(d, e)\<close> when their eigensolver returns such a band for every
  index range inside the matrix.
\<close>

definition eigh_band :: "real list \<Rightarrow> real list \<Rightarrow> nat \<Rightarrow> nat \<Rightarrow> real list \<Rightarrow> real list list \<Rightarrow> bool" where
  "eigh_band d e lo hi w v =
     (length w = hi - lo + 1 \<and> sorted w
      \<and> (\<forall>i<length w. nth_smallest_eigenvalue d e (lo + i + 1) (w ! i))
      \<and> ndarray2 (length d) (length w) v
      \<and> (\<forall>i<length w. eigenvector d e (w ! i) (column v i)))"

definition eigh_contract :: "lib \<Rightarrow> real list \<Rightarrow> real list \<Rightarrow> bool" where
  "eigh_contract lib d e =
     (\<forall>lo hi. 0 \<le> lo \<and> lo \<le> hi \<and> hi < int (length d) \<longrightarrow>
        (\<exists>w v. eigh_tridiagonal lib (map Fin d) (map Fin e) (lo, hi) = Inr (map Fin w, fin_array v)
               \<and> eigh_band d e (nat lo) (nat hi) w v))"

text \<open>
  A third configuration, with three grid points on \<open>[0, 3]\<close> and the potential
  \<open>1/2, 1, 1/2\<close> given by three control points, asking for the second and the third
  eigenvalue. Its Hamiltonian has the diagonal \<open>3/2, 2, 3/2\<close> and the off-diagonal
  \<open>-1/2, -1/2\<close>, and the eigenvalues \<open>1\<close>, \<open>3/2\<close> and \<open>5/2\<close>; the eigensolver of the
  library routines \<open>lib1\<close> knows the three eigenpairs of this matrix and returns the
  band of them that the index range selects.
\<close>

definition diag1 :: "real list" where
  "diag1 = [3 / 2, 2, 3 / 2]"

definition offdiag1 :: "real list" where
  "offdiag1 = [- (1 / 2), - (1 / 2)]"

definition para1 :: para where
  "para1 = para0\<lparr>xMax := 3, nPoints := 3, interpolation_points_number := 3,
                  interpolation_points_x := [0, 3 / 2, 3], interpolation_points_y := [1 / 2, 1, 1 / 2],
                  first_eigenvalue := 2, last_eigenvalue := 3\<rparr>"

definition lib1 :: lib where
  "lib1 = lib0\<lparr>eigh_tridiagonal := (\<lambda>d e (lo, hi).
      if d = map Fin diag1 \<and> e = map Fin offdiag1 \<and> 0 \<le> lo \<and> lo \<le> hi \<and> hi < 3
      then Inr (map Fin (take (nat (hi - lo + 1)) (drop (nat lo) [1, 3 / 2, 5 / 2])),
                fin_array (map (\<lambda>row. take (nat (hi - lo + 1)) (drop (nat lo) row))
                   [[1 / sqrt 3, 1 / sqrt 2, 1 / sqrt 6],
                    [1 / sqrt 3, 0, - 2 / sqrt 6],
                    [1 / sqrt 3, - 1 / sqrt 2, 1 / sqrt 6]]))
      else Inl LinAlgError)\<rparr>"

section \<open>Properties of the normalisation\<close>


lemma foldl_np_add_Fin: "foldl np_add (Fin a) (map Fin xs) = Fin (a + sum_list xs)"
  by (induction xs arbitrary: a) (simp_all add: add.assoc)

lemma py_sum_Fin: "py_sum (map (\<lambda>x. Fin (f x)) xs) = Fin (\<Sum>x\<leftarrow>xs. f x)"
  using foldl_np_add_Fin[of 0 "map f xs"] by (simp add: py_sum_def o_def)

lemma norm_loop_append:
  "norm_loop (is @ js) E p =
     (case norm_loop is E p of Inl e \<Rightarrow> Inl e | Inr E' \<Rightarrow> norm_loop js E' p)"
  by (induction "is" arbitrary: E) (simp_all split: option.splits)

lemma normalized_upto_0: "normalized_upto 0 d E = E"
  by (simp add: normalized_upto_def map_nth)

lemma interior_map: "interior (map f xs) = map f (interior xs)"
  by (simp add: interior_def map_butlast map_tl)

lemma set_interior: "set (interior xs) \<subseteq> set xs"
  unfolding interior_def
  by (metis in_set_butlastD list.set_sel(2) subsetI tl_Nil)

lemma column_normalized_upto:
  assumes "\<forall>row \<in> set E. length row = m" "k < m" "set X \<subseteq> set E"
  shows "column (map (\<lambda>row. map (\<lambda>c. if c < k then f row c else row ! c) [0..<length row]) X) k = column X k"
  using assms by (auto simp: column_def)

lemma eigenvector_norm_normalized_upto:
  assumes "\<forall>row \<in> set E. length row = m" "k < m"
  shows "eigenvector_norm d (normalized_upto k d' E) k = eigenvector_norm d E k"
  using assms set_interior[of E]
  by (simp add: eigenvector_norm_def normalized_upto_def interior_map column_normalized_upto)

lemma norm_step:
  assumes "\<forall>row \<in> set E. length row = m" "k < m"
  shows "set_column (normalized_upto k d E) k
           (map (\<lambda>v. np_div v (np_sqrt (eigenvector_norm d (normalized_upto k d E) k)))
                (column (normalized_upto k d E) k))
         = normalized_upto (Suc k) d E"
proof -
  have n: "eigenvector_norm d (normalized_upto k d E) k = eigenvector_norm d E k"
    using assms by (rule eigenvector_norm_normalized_upto)
  show ?thesis
    unfolding n
    using assms
    by (auto simp: set_column_def normalized_upto_def column_def zip_map_map map_update
             intro!: nth_equalityI simp: less_Suc_eq)
qed

lemma norm_loop_upto:
  assumes "\<forall>row \<in> set E. length row = m" "Delta p = Some d" "k \<le> m"
  shows "norm_loop [0..<k] E p = Inr (normalized_upto k d E)"
  using assms(3)
proof (induction k)
  case 0
  show ?case by (simp add: normalized_upto_0)
next
  case (Suc k)
  then have km: "k < m" and IH: "norm_loop [0..<k] E p = Inr (normalized_upto k d E)"
    by simp_all
  show ?case
    by (simp add: norm_loop_append IH assms(2) norm_step[OF assms(1) km])
qed


lemma interior_nth: "length (interior xs) = length xs - 2 \<and> (\<forall>i<length xs - 2. interior xs ! i = xs ! Suc i)"
  by (auto simp: interior_def nth_butlast nth_tl)

lemma sum_list_interior:
  "(\<Sum>x\<leftarrow>interior xs. f x) = (\<Sum>r = 1..<length xs - 1. f (xs ! r))"
proof -
  have "(\<Sum>x\<leftarrow>interior xs. f x) = (\<Sum>i = 0..<length xs - 2. f (interior xs ! i))"
    using interior_nth[of xs] by (simp add: sum_list_sum_nth atLeast0LessThan)
  also have "\<dots> = (\<Sum>i = 0..<length xs - 2. f (xs ! Suc i))"
    using interior_nth[of xs] by simp
  also have "\<dots> = (\<Sum>r = Suc 0..<Suc (length xs - 2). f (xs ! r))"
    by (simp only: sum.shift_bounds_Suc_ivl)
  also have "Suc (length xs - 2) = (if length xs < 2 then 1 else length xs - 1)" by auto
  finally show ?thesis by (auto split: if_splits)
qed

lemma eigenvector_norm_fin:
  assumes "\<forall>row \<in> set R. c < length row"
  shows "eigenvector_norm (Fin \<delta>) (fin_array R) c = Fin (\<delta> * (\<Sum>r\<leftarrow>interior R. (r ! c)\<^sup>2))"
proof -
  have "map (\<lambda>v. np_pow2 (np_abs v)) (column (interior (fin_array R)) c)
        = map (\<lambda>r. Fin ((r ! c)\<^sup>2)) (interior R)"
    using assms set_interior[of R]
    by (auto simp: fin_array_def interior_map column_def np_pow2_def power2_eq_square)
  then show ?thesis
    by (simp add: eigenvector_norm_def py_sum_Fin)
qed

lemma normalized_fin:
  assumes "\<forall>row \<in> set R. length row = m" "\<forall>c<m. 0 < \<delta> * (\<Sum>r\<leftarrow>interior R. (r ! c)\<^sup>2)"
  shows "normalized_upto m (Fin \<delta>) (fin_array R) = fin_array (scaled \<delta> R)"
proof -
  have "\<And>row c. row \<in> set R \<Longrightarrow> c < length row \<Longrightarrow>
      np_div (map Fin row ! c) (np_sqrt (eigenvector_norm (Fin \<delta>) (fin_array R) c))
      = Fin (row ! c / sqrt (\<delta> * (\<Sum>r\<leftarrow>interior R. (r ! c)\<^sup>2)))"
  proof -
    fix row c assume row: "row \<in> set R" and c: "c < length row"
    then have cm: "c < m" using assms(1) by auto
    then have "\<forall>row \<in> set R. c < length row" using assms(1) by auto
    then have e: "eigenvector_norm (Fin \<delta>) (fin_array R) c = Fin (\<delta> * (\<Sum>r\<leftarrow>interior R. (r ! c)\<^sup>2))"
      by (rule eigenvector_norm_fin)
    define q where "q = \<delta> * (\<Sum>r\<leftarrow>interior R. (r ! c)\<^sup>2)"
    have pos: "0 < q" using assms(2) cm by (simp add: q_def)
    have "np_div (map Fin row ! c) (np_sqrt (Fin q)) = Fin (row ! c / sqrt q)"
      using pos c by simp
    then show "np_div (map Fin row ! c) (np_sqrt (eigenvector_norm (Fin \<delta>) (fin_array R) c))
      = Fin (row ! c / sqrt (\<delta> * (\<Sum>r\<leftarrow>interior R. (r ! c)\<^sup>2)))"
      unfolding e q_def .
  qed
  then show ?thesis
    using assms(1)
    by (auto simp: normalized_upto_def fin_array_def scaled_def)
qed

lemma norm_eigenvectors_fin:
  assumes "ndarray2 n m R" "0 < n" "Delta p = Some (Fin \<delta>)"
    "\<forall>c<m. 0 < \<delta> * (\<Sum>r\<leftarrow>interior R. (r ! c)\<^sup>2)"
  shows "norm_eigenvectors (fin_array R) p = Inr (fin_array (scaled \<delta> R))"
proof -
  from assms(1,2) obtain row0 rest where R: "R = row0 # rest"
    by (cases R) (auto simp: ndarray2_def)
  have rows: "\<forall>row \<in> set R. length row = m" using assms(1) by (simp add: ndarray2_def)
  then have rows': "\<forall>row \<in> set (fin_array R). length row = m" by (simp add: fin_array_def)
  have l0: "length row0 = m" using rows R by simp
  have "norm_eigenvectors (fin_array R) p = norm_loop [0..<m] (fin_array R) p"
    by (simp add: norm_eigenvectors_def R fin_array_def l0)
  also have "\<dots> = Inr (normalized_upto m (Fin \<delta>) (fin_array R))"
    by (rule norm_loop_upto[OF rows' assms(3)]) simp
  finally show ?thesis by (simp add: normalized_fin[OF rows assms(4)])
qed

lemma ndarray2_scaled: "ndarray2 n m R \<Longrightarrow> ndarray2 n m (scaled \<delta> R)"
  by (auto simp: ndarray2_def scaled_def)

lemma scaled_nth:
  assumes "ndarray2 n m R" "r < n" "c < m"
  shows "scaled \<delta> R ! r ! c = R ! r ! c / sqrt (\<delta> * (\<Sum>r\<leftarrow>interior R. (r ! c)\<^sup>2))"
  using assms by (auto simp: ndarray2_def scaled_def)

lemma sum_list_div_const: "(\<Sum>x\<leftarrow>xs. f x / (k::real)) = (\<Sum>x\<leftarrow>xs. f x) / k"
  by (induction xs) (simp_all add: add_divide_distrib)

lemma quad_scaled:
  assumes "ndarray2 n m R" "c < m" "0 < \<delta> * (\<Sum>r\<leftarrow>interior R. (r ! c)\<^sup>2)"
  shows "\<delta> * (\<Sum>r\<leftarrow>interior (scaled \<delta> R). (r ! c)\<^sup>2) = 1"
proof -
  define q where "q = \<delta> * (\<Sum>r\<leftarrow>interior R. (r ! c)\<^sup>2)"
  have q: "0 < q" using assms(3) by (simp add: q_def)
  have rows: "\<forall>row \<in> set (interior R). c < length row"
    using assms(1,2) set_interior[of R] by (auto simp: ndarray2_def)
  have "interior (scaled \<delta> R)
        = map (\<lambda>row. map (\<lambda>c. row ! c / sqrt (\<delta> * (\<Sum>r\<leftarrow>interior R. (r ! c)\<^sup>2))) [0..<length row]) (interior R)"
    by (simp add: scaled_def interior_map)
  then have "(\<Sum>r\<leftarrow>interior (scaled \<delta> R). (r ! c)\<^sup>2) = (\<Sum>r\<leftarrow>interior R. (r ! c / sqrt q)\<^sup>2)"
    using rows unfolding q_def by (auto simp: o_def intro!: arg_cong[where f=sum_list])
  also have "\<dots> = (\<Sum>r\<leftarrow>interior R. (r ! c)\<^sup>2 / q)"
    using q by (simp add: power_divide)
  also have "\<dots> = (\<Sum>r\<leftarrow>interior R. (r ! c)\<^sup>2) / q"
    by (rule sum_list_div_const)
  finally have "\<delta> * (\<Sum>r\<leftarrow>interior (scaled \<delta> R). (r ! c)\<^sup>2) = q / q"
    by (simp add: q_def)
  then show ?thesis using q by simp
qed

lemma sum_interior_rows:
  assumes "ndarray2 n m R"
  shows "(\<Sum>r\<leftarrow>interior R. (r ! c)\<^sup>2) = (\<Sum>r = 1..<n - 1. (R ! r ! c)\<^sup>2)"
  using assms sum_list_interior[of "\<lambda>r. (r ! c)\<^sup>2" R] by (simp add: ndarray2_def)

lemma scaled_fixed:
  assumes "ndarray2 n m R" "\<forall>c<m. \<delta> * (\<Sum>r\<leftarrow>interior R. (r ! c)\<^sup>2) = 1"
  shows "scaled \<delta> R = R"
  using assms by (auto simp: scaled_def ndarray2_def intro!: map_idI nth_equalityI)

text \<open>
  C4: for an array of \<open>n\<close> rows and \<open>m\<close> columns of finite numbers in which every column
  has a strictly positive interior quadrature sum, the normaliser returns an array of the
  same shape, and in it every column \<open>c\<close> satisfies
  \<open>\<Delta> * (|\<psi>\<^sub>1|\<^sup>2 + ... + |\<psi>\<^bsub>n-2\<^esub>|\<^sup>2) = 1\<close>: the sum runs over the rows \<open>1 .. n-2\<close> only, the first
  and the last row are left out (over exact arithmetic).
\<close>

theorem norm_eigenvectors_interior_quadrature:
  assumes "ndarray2 n m R" and "0 < n" and "Delta p = Some (Fin \<delta>)"
    and "\<forall>c<m. 0 < \<delta> * (\<Sum>r = 1..<n - 1. \<bar>R ! r ! c\<bar>\<^sup>2)"
  shows "\<exists>R'. norm_eigenvectors (fin_array R) p = Inr (fin_array R') \<and> ndarray2 n m R' \<and>
           (\<forall>c<m. \<delta> * (\<Sum>r = 1..<n - 1. \<bar>R' ! r ! c\<bar>\<^sup>2) = 1)"
proof -
  have pos: "\<forall>c<m. 0 < \<delta> * (\<Sum>r\<leftarrow>interior R. (r ! c)\<^sup>2)"
    using assms(4) by (simp add: sum_interior_rows[OF assms(1)])
  have run: "norm_eigenvectors (fin_array R) p = Inr (fin_array (scaled \<delta> R))"
    by (rule norm_eigenvectors_fin[OF assms(1-3) pos])
  have shape: "ndarray2 n m (scaled \<delta> R)"
    by (rule ndarray2_scaled[OF assms(1)])
  have "\<forall>c<m. \<delta> * (\<Sum>r\<leftarrow>interior (scaled \<delta> R). (r ! c)\<^sup>2) = 1"
    using quad_scaled[OF assms(1)] pos by simp
  then have "\<forall>c<m. \<delta> * (\<Sum>r = 1..<n - 1. (scaled \<delta> R ! r ! c)\<^sup>2) = 1"
    unfolding sum_interior_rows[OF shape] .
  then have "\<forall>c<m. \<delta> * (\<Sum>r = 1..<n - 1. \<bar>scaled \<delta> R ! r ! c\<bar>\<^sup>2) = 1"
    by simp
  with run shape show ?thesis by blast
qed

lemma norm_eigenvectors_example: "norm_eigenvectors (fin_array [[1], [2], [0], [3]]) (para0\<lparr>Delta := Some (Fin 1)\<rparr>)
   = Inr (fin_array [[1/2], [1], [0], [3/2]])"
  by (simp add: norm_eigenvectors_def fin_array_def eigenvector_norm_def set_column_def column_def interior_def py_sum_def np_pow2_def upt_rec)

theorem norm_eigenvectors_interior_quadrature_witness:
  "norm_eigenvectors (fin_array [[1], [2], [0], [3]]) (para0\<lparr>Delta := Some (Fin 1)\<rparr>)
     = Inr (fin_array [[1/2], [1], [0], [3/2]]) \<and>
   (\<exists>R'. norm_eigenvectors (fin_array [[1], [2], [0], [3]]) (para0\<lparr>Delta := Some (Fin 1)\<rparr>)
          = Inr (fin_array R') \<and> ndarray2 4 1 R' \<and>
        (\<forall>c<1. 1 * (\<Sum>r = 1..<4 - 1. \<bar>R' ! r ! c\<bar>\<^sup>2) = 1))"
proof -
  have shape: "ndarray2 4 1 [[1], [2], [0], [3::real]]"
    by (simp add: ndarray2_def)
  have pos: "\<forall>c<1. 0 < 1 * (\<Sum>r = 1..<4 - 1. \<bar>[[1], [2], [0], [3::real]] ! r ! c\<bar>\<^sup>2)"
    by (simp add: sum.atLeast_Suc_lessThan)
  have "\<exists>R'. norm_eigenvectors (fin_array [[1], [2], [0], [3]]) (para0\<lparr>Delta := Some (Fin 1)\<rparr>)
          = Inr (fin_array R') \<and> ndarray2 4 1 R' \<and>
        (\<forall>c<1. 1 * (\<Sum>r = 1..<4 - 1. \<bar>R' ! r ! c\<bar>\<^sup>2) = 1)"
    using norm_eigenvectors_interior_quadrature
      [of 4 1 "[[1], [2], [0], [3]]" "para0\<lparr>Delta := Some (Fin 1)\<rparr>" 1, OF shape _ _ pos]
    by simp
  with norm_eigenvectors_example show ?thesis by blast
qed

text \<open>
  C9: the normaliser is idempotent. For an array of finite numbers whose columns have
  strictly positive interior quadrature sums, the normaliser succeeds, and applied to
  its own result it returns that result again, entry by entry (over exact arithmetic).
\<close>

theorem norm_eigenvectors_idempotent:
  assumes "ndarray2 n m R" and "0 < n" and "Delta p = Some (Fin \<delta>)"
    and "\<forall>c<m. 0 < \<delta> * (\<Sum>r = 1..<n - 1. \<bar>R ! r ! c\<bar>\<^sup>2)"
  shows "\<exists>E'. norm_eigenvectors (fin_array R) p = Inr E' \<and> norm_eigenvectors E' p = Inr E'"
proof -
  have pos: "\<forall>c<m. 0 < \<delta> * (\<Sum>r\<leftarrow>interior R. (r ! c)\<^sup>2)"
    using assms(4) by (simp add: sum_interior_rows[OF assms(1)])
  have run: "norm_eigenvectors (fin_array R) p = Inr (fin_array (scaled \<delta> R))"
    by (rule norm_eigenvectors_fin[OF assms(1-3) pos])
  have shape: "ndarray2 n m (scaled \<delta> R)"
    by (rule ndarray2_scaled[OF assms(1)])
  have one: "\<forall>c<m. \<delta> * (\<Sum>r\<leftarrow>interior (scaled \<delta> R). (r ! c)\<^sup>2) = 1"
    using quad_scaled[OF assms(1)] pos by simp
  then have pos': "\<forall>c<m. 0 < \<delta> * (\<Sum>r\<leftarrow>interior (scaled \<delta> R). (r ! c)\<^sup>2)"
    by simp
  have "norm_eigenvectors (fin_array (scaled \<delta> R)) p = Inr (fin_array (scaled \<delta> (scaled \<delta> R)))"
    by (rule norm_eigenvectors_fin[OF shape assms(2,3) pos'])
  also have "scaled \<delta> (scaled \<delta> R) = scaled \<delta> R"
    by (rule scaled_fixed[OF shape one])
  finally show ?thesis using run by blast
qed

theorem norm_eigenvectors_idempotent_witness:
  "\<exists>E'. norm_eigenvectors (fin_array [[1], [2], [0], [3]]) (para0\<lparr>Delta := Some (Fin 1)\<rparr>) = Inr E'
        \<and> norm_eigenvectors E' (para0\<lparr>Delta := Some (Fin 1)\<rparr>) = Inr E'"
proof -
  have shape: "ndarray2 4 1 [[1], [2], [0], [3::real]]"
    by (simp add: ndarray2_def)
  have pos: "\<forall>c<1. 0 < 1 * (\<Sum>r = 1..<4 - 1. \<bar>[[1], [2], [0], [3::real]] ! r ! c\<bar>\<^sup>2)"
    by (simp add: sum.atLeast_Suc_lessThan)
  show ?thesis
    using norm_eigenvectors_idempotent
      [of 4 1 "[[1], [2], [0], [3]]" "para0\<lparr>Delta := Some (Fin 1)\<rparr>" 1, OF shape _ _ pos]
    by simp
qed

lemma tridiag_row_scale:
  assumes "length v = length d" "i < length d"
  shows "tridiag_row d e (map (\<lambda>x. k * x) v) i = k * tridiag_row d e v i"
  using assms by (simp add: tridiag_row_def algebra_simps)

lemma eigenvector_scale:
  assumes "eigenvector d e lam v" "k \<noteq> 0"
  shows "eigenvector d e lam (map (\<lambda>x. k * x) v)"
  using assms by (auto simp: eigenvector_def tridiag_row_scale)

lemma column_scaled:
  assumes "ndarray2 n m R" "c < m"
  shows "column (scaled \<delta> R) c
         = map (\<lambda>x. (1 / sqrt (\<delta> * (\<Sum>r\<leftarrow>interior R. (r ! c)\<^sup>2))) * x) (column R c)"
  using assms by (auto simp: column_def scaled_def ndarray2_def)

text \<open>
  C10: for an array of finite numbers whose columns have strictly positive interior
  quadrature sums, the normaliser divides every one of the \<open>n\<close> components of column
  \<open>c\<close>, the first and the last row included, by the same scalar
  \<open>s = sqrt (\<Delta> * (|\<psi>\<^sub>1|\<^sup>2 + ... + |\<psi>\<^bsub>n-2\<^esub>|\<^sup>2))\<close>, which is positive. So the normalised column is
  the input column multiplied by \<open>1 / s\<close>, and whenever the input column is an eigenvector
  of a symmetric tridiagonal matrix for an eigenvalue, the normalised column is an
  eigenvector of that matrix for the same eigenvalue.
\<close>

theorem norm_eigenvectors_scalar_multiple:
  assumes "ndarray2 n m R" and "0 < n" and "Delta p = Some (Fin \<delta>)"
    and "\<forall>c<m. 0 < \<delta> * (\<Sum>r = 1..<n - 1. \<bar>R ! r ! c\<bar>\<^sup>2)"
  shows "\<exists>R'. norm_eigenvectors (fin_array R) p = Inr (fin_array R') \<and> ndarray2 n m R' \<and>
           (\<forall>c<m. \<exists>s. 0 < s \<and> s = sqrt (\<delta> * (\<Sum>r = 1..<n - 1. \<bar>R ! r ! c\<bar>\<^sup>2)) \<and>
              (\<forall>r<n. R' ! r ! c = R ! r ! c / s) \<and>
              column R' c = map (\<lambda>x. (1 / s) * x) (column R c) \<and>
              (\<forall>d e lam. eigenvector d e lam (column R c) \<longrightarrow> eigenvector d e lam (column R' c)))"
proof -
  have pos: "\<forall>c<m. 0 < \<delta> * (\<Sum>r\<leftarrow>interior R. (r ! c)\<^sup>2)"
    using assms(4) by (simp add: sum_interior_rows[OF assms(1)])
  have run: "norm_eigenvectors (fin_array R) p = Inr (fin_array (scaled \<delta> R))"
    by (rule norm_eigenvectors_fin[OF assms(1-3) pos])
  have shape: "ndarray2 n m (scaled \<delta> R)"
    by (rule ndarray2_scaled[OF assms(1)])
  have "\<exists>s. 0 < s \<and> s = sqrt (\<delta> * (\<Sum>r = 1..<n - 1. \<bar>R ! r ! c\<bar>\<^sup>2)) \<and>
              (\<forall>r<n. scaled \<delta> R ! r ! c = R ! r ! c / s) \<and>
              column (scaled \<delta> R) c = map (\<lambda>x. (1 / s) * x) (column R c) \<and>
              (\<forall>d e lam. eigenvector d e lam (column R c) \<longrightarrow> eigenvector d e lam (column (scaled \<delta> R) c))"
    if c: "c < m" for c
  proof -
    define s where "s = sqrt (\<delta> * (\<Sum>r\<leftarrow>interior R. (r ! c)\<^sup>2))"
    have s: "0 < s" using pos c by (simp add: s_def)
    have eq: "s = sqrt (\<delta> * (\<Sum>r = 1..<n - 1. \<bar>R ! r ! c\<bar>\<^sup>2))"
      by (simp add: s_def sum_interior_rows[OF assms(1)])
    have ent: "\<forall>r<n. scaled \<delta> R ! r ! c = R ! r ! c / s"
      using scaled_nth[OF assms(1) _ c] by (simp add: s_def)
    have col: "column (scaled \<delta> R) c = map (\<lambda>x. (1 / s) * x) (column R c)"
      unfolding s_def by (rule column_scaled[OF assms(1) c])
    have "eigenvector d e lam (column (scaled \<delta> R) c)" if "eigenvector d e lam (column R c)" for d e lam
      unfolding col using that s by (intro eigenvector_scale) auto
    with s eq ent col show ?thesis by blast
  qed
  with run shape show ?thesis by blast
qed

theorem norm_eigenvectors_scalar_multiple_witness:
  "\<exists>R'. norm_eigenvectors (fin_array [[1], [2], [0], [3]]) (para0\<lparr>Delta := Some (Fin 1)\<rparr>)
          = Inr (fin_array R') \<and> ndarray2 4 1 R' \<and>
        (\<forall>c<1. \<exists>s. 0 < s \<and> s = sqrt (1 * (\<Sum>r = 1..<4 - 1. \<bar>[[1], [2], [0], [3]] ! r ! c\<bar>\<^sup>2)) \<and>
              (\<forall>r<4. R' ! r ! c = [[1], [2], [0], [3]] ! r ! c / s) \<and>
              column R' c = map (\<lambda>x. (1 / s) * x) (column [[1], [2], [0], [3]] c) \<and>
              (\<forall>d e lam. eigenvector d e lam (column [[1], [2], [0], [3]] c) \<longrightarrow> eigenvector d e lam (column R' c)))"
proof -
  have shape: "ndarray2 4 1 [[1], [2], [0], [3::real]]"
    by (simp add: ndarray2_def)
  have pos: "\<forall>c<1. 0 < 1 * (\<Sum>r = 1..<4 - 1. \<bar>[[1], [2], [0], [3::real]] ! r ! c\<bar>\<^sup>2)"
    by (simp add: sum.atLeast_Suc_lessThan)
  have n: "0 < (4::nat)" by simp
  have d: "Delta (para0\<lparr>Delta := Some (Fin 1)\<rparr>) = Some (Fin 1)" by simp
  show ?thesis
    by (rule norm_eigenvectors_scalar_multiple[OF shape n d pos])
qed

section \<open>The grid, the interpolation stage and the Hamiltonian\<close>

lemma linspace_fin:
  assumes "0 \<le> num"
  shows "linspace (Fin a) (Fin b) num
         = Inr (map (\<lambda>i. Fin (a + real i * ((b - a) / real_of_int (num - 1)))) [0..<nat num])"
proof -
  consider "num = 0" | "num = 1" | "2 \<le> num" using assms by linarith
  then show ?thesis
  proof cases
    case 1
    then show ?thesis by (simp add: linspace_def)
  next
    case 2
    then show ?thesis by (simp add: linspace_def np_sub_def)
  next
    case 3
    define n where "n = nat num"
    have n: "2 \<le> n" "num = int n" using 3 by (simp_all add: n_def)
    have dv: "real_of_int (num - 1) = real n - 1" "real_of_int (num - 1) \<noteq> 0"
      using n by simp_all
    have last: "a + real (n - 1) * ((b - a) / (real n - 1)) = b"
      using n by (simp add: of_nat_diff)
    show ?thesis
    proof (cases "b = a")
      case True
      then show ?thesis using 3 n
        by (auto simp: linspace_def np_sub_def Let_def n_def[symmetric] intro!: nth_equalityI simp: nth_list_update)
    next
      case False
      then show ?thesis using 3 n last dv
        by (auto simp: linspace_def np_sub_def Let_def n_def[symmetric] intro!: nth_equalityI simp: nth_list_update)
    qed
  qed
qed

lemma linspace_para0: "linspace (Fin 0) (Fin 4) 4 = Inr [Fin 0, Fin (4/3), Fin (8/3), Fin 4]"
  by (simp add: linspace_fin upt_rec)

lemma interpolate_potential_para0: "interpolate_potential lib0 para0 = (Inr [Fin 0, Fin 0, Fin 0, Fin 0], 
   [Write_potential [Fin 0, Fin (4/3), Fin (8/3), Fin 4] [Fin 0, Fin 0, Fin 0, Fin 0] ''out''])"
  by (simp add: interpolate_potential_def para0_def linspace_para0 interp1d_def call_linear_def searchsorted_def py_index_def np_sub_def)

lemma linspace_length:
  assumes "linspace a b num = Inr xs"
  shows "0 \<le> num \<and> length xs = nat num"
  using assms by (auto simp: linspace_def Let_def split: if_splits)

lemma linspace_cases: "(num < 0 \<and> linspace a b num = Inl ValueError) \<or> (0 \<le> num \<and> (\<exists>xs. linspace a b num = Inr xs))"
  by (auto simp: linspace_def Let_def)

lemma map_sum_id_Inr: "map_sum id f x = Inr y \<longleftrightarrow> (\<exists>z. x = Inr z \<and> y = f z)"
  by (cases x) auto

lemma interpolate_potential_Inr:
  assumes "interpolate_potential lib p = (Inr V, ws)"
  shows "0 \<le> nPoints p \<and> length V = nat (nPoints p) \<and>
         (\<exists>xaxis. linspace (Fin (xMin p)) (Fin (xMax p)) (nPoints p) = Inr xaxis \<and>
                   ws = [Write_potential xaxis V (directory p)])"
proof -
  from assms obtain xaxis where x: "linspace (Fin (xMin p)) (Fin (xMax p)) (nPoints p) = Inr xaxis"
    by (cases "linspace (Fin (xMin p)) (Fin (xMax p)) (nPoints p)")
       (auto simp: interpolate_potential_def)
  have len: "0 \<le> nPoints p \<and> length xaxis = nat (nPoints p)"
    using x by (rule linspace_length)
  from assms x have "length V = length xaxis \<and> ws = [Write_potential xaxis V (directory p)]"
    by (auto simp: interpolate_potential_def interp1d_def Let_def map_sum_id_Inr
             split: sum.splits option.splits if_splits)
  with len x show ?thesis by simp
qed

text \<open>
  C2: whenever the interpolation stage delivers the potential samples \<open>V\<close> (one per grid
  point), the mass is positive and the spacing \<open>\<Delta> = |xMax - xMin| / nPoints\<close> is positive,
  the Hamiltonian builder returns a diagonal of length \<open>nPoints\<close> with
  \<open>diagonal[i] = a + V[i]\<close>, where \<open>a = 1 / (m * \<Delta>\<^sup>2)\<close>, and an off-diagonal of length
  \<open>nPoints - 1\<close> whose every entry is \<open>- a / 2\<close>.
\<close>

theorem write_hamiltonian_entries:
  assumes "interpolate_potential lib p = (Inr V, ws)" and "0 < mass p" and "xMin p \<noteq> xMax p"
    and "1 \<le> nPoints p"
  shows "\<exists>diag off a \<Delta>. \<Delta> = \<bar>xMax p - xMin p\<bar> / real_of_int (nPoints p) \<and> 0 < \<Delta> \<and>
           a = 1 / (mass p * \<Delta>\<^sup>2) \<and>
           write_hamiltonian lib p = (Inr (diag, off), p\<lparr>Delta := Some (Fin \<Delta>)\<rparr>, ws) \<and>
           length diag = nat (nPoints p) \<and>
           (\<forall>i<nat (nPoints p). diag ! i = np_add (Fin a) (V ! i) \<and>
                (\<forall>v. V ! i = Fin v \<longrightarrow> diag ! i = Fin (a + v))) \<and>
           length off = nat (nPoints p - 1) \<and>
           (\<forall>i<nat (nPoints p - 1). off ! i = Fin (- a / 2))"
proof -
  define \<Delta> where "\<Delta> = \<bar>xMax p - xMin p\<bar> / real_of_int (nPoints p)"
  define a where "a = 1 / (mass p * \<Delta>\<^sup>2)"
  have d: "0 < \<Delta>" using assms(3,4) by (simp add: \<Delta>_def)
  have len: "length V = nat (nPoints p)"
    using interpolate_potential_Inr[OF assms(1)] by simp
  have delta: "np_div (np_abs (Fin (xMax p - xMin p))) (Fin (real_of_int (nPoints p))) = Fin \<Delta>"
    using assms(4) by (simp add: \<Delta>_def)
  have aa: "np_div (Fin 1) (np_mul (Fin (mass p)) (np_pow2 (Fin \<Delta>))) = Fin a"
    using d assms(2) by (simp add: a_def np_pow2_def power2_eq_square)
  have ones: "np_ones (nPoints p - 1) = Inr (replicate (nat (nPoints p - 1)) (Fin 1))"
    using assms(4) by (simp add: np_ones_def)
  define diag where "diag = map (np_add (Fin a)) V"
  define off where "off = map (np_mul (np_div (np_neg (Fin a)) (Fin 2)))
                   (replicate (nat (nPoints p - 1)) (Fin 1))"
  have w: "write_hamiltonian lib p = (Inr (diag, off), p\<lparr>Delta := Some (Fin \<Delta>)\<rparr>, ws)"
    unfolding write_hamiltonian_def assms(1)
    by (simp only: prod.case sum.case Let_def delta aa ones diag_def off_def)
  have c1: "\<Delta> = \<bar>xMax p - xMin p\<bar> / real_of_int (nPoints p)" by (simp add: \<Delta>_def)
  have c3: "a = 1 / (mass p * \<Delta>\<^sup>2)" by (simp add: a_def)
  have c5: "length diag = nat (nPoints p)" by (simp add: diag_def len)
  have c6: "\<forall>i<nat (nPoints p). diag ! i = np_add (Fin a) (V ! i) \<and>
                (\<forall>v. V ! i = Fin v \<longrightarrow> diag ! i = Fin (a + v))"
    by (simp add: diag_def len)
  have c7: "length off = nat (nPoints p - 1)" by (simp add: off_def)
  have c8: "\<forall>i<nat (nPoints p - 1). off ! i = Fin (- a / 2)" by (simp add: off_def)
  from c1 d c3 w c5 c6 c7 c8 show ?thesis by blast
qed

lemma write_hamiltonian_para0: "write_hamiltonian lib0 para0 = (Inr ([Fin 1, Fin 1, Fin 1, Fin 1], [Fin (-1/2), Fin (-1/2), Fin (-1/2)]), para0\<lparr>Delta := Some (Fin 1)\<rparr>, 
   [Write_potential [Fin 0, Fin (4/3), Fin (8/3), Fin 4] [Fin 0, Fin 0, Fin 0, Fin 0] ''out''])"
  by (simp add: write_hamiltonian_def interpolate_potential_para0 Let_def np_ones_def np_pow2_def numeral_3_eq_3) (simp add: para0_def numeral_3_eq_3)

theorem write_hamiltonian_entries_witness:
  "\<exists>diag off a \<Delta>. \<Delta> = \<bar>xMax para0 - xMin para0\<bar> / real_of_int (nPoints para0) \<and> 0 < \<Delta> \<and>
     a = 1 / (mass para0 * \<Delta>\<^sup>2) \<and>
     write_hamiltonian lib0 para0
       = (Inr (diag, off), para0\<lparr>Delta := Some (Fin \<Delta>)\<rparr>,
          [Write_potential [Fin 0, Fin (4/3), Fin (8/3), Fin 4] [Fin 0, Fin 0, Fin 0, Fin 0] ''out'']) \<and>
     length diag = nat (nPoints para0) \<and>
     (\<forall>i<nat (nPoints para0). diag ! i = np_add (Fin a) ([Fin 0, Fin 0, Fin 0, Fin 0] ! i) \<and>
          (\<forall>v. [Fin 0, Fin 0, Fin 0, Fin 0] ! i = Fin v \<longrightarrow> diag ! i = Fin (a + v))) \<and>
     length off = nat (nPoints para0 - 1) \<and>
     (\<forall>i<nat (nPoints para0 - 1). off ! i = Fin (- a / 2))"
proof -
  have m: "0 < mass para0" and x: "xMin para0 \<noteq> xMax para0" and n: "1 \<le> nPoints para0"
    by (simp_all add: para0_def)
  show ?thesis
    by (rule write_hamiltonian_entries[OF interpolate_potential_para0 m x n])
qed

text \<open>
  C8 fails as stated. The stage builds the grid before it looks at the method name,
  and it has no branch for an unknown name. In the configuration \<open>para0\<close> with the
  method name \<^verbatim>\<open>quadratic\<close> and \<open>-1\<close> grid points, the error that aborts the run is the
  ValueError of the grid construction, which says nothing of the method; with the same
  method name and the four grid points of \<open>para0\<close>, the grid \<open>0, 4/3, 8/3, 4\<close> has been
  computed when the run is aborted, and the error is the UnboundLocalError of a call
  of a variable that no branch has bound.
\<close>

theorem unknown_method_counterexample:
  "interpolation_type (para0\<lparr>interpolation_type := ''quadratic'', nPoints := - 1\<rparr>)
     \<notin> {''linear'', ''cspline'', ''polynomial''} \<and>
   linspace (Fin (xMin (para0\<lparr>interpolation_type := ''quadratic'', nPoints := - 1\<rparr>)))
        (Fin (xMax (para0\<lparr>interpolation_type := ''quadratic'', nPoints := - 1\<rparr>)))
        (nPoints (para0\<lparr>interpolation_type := ''quadratic'', nPoints := - 1\<rparr>))
     = Inl ValueError \<and>
   interpolate_potential lib0 (para0\<lparr>interpolation_type := ''quadratic'', nPoints := - 1\<rparr>)
     = (Inl ValueError, []) \<and>
   interpolation_type (para0\<lparr>interpolation_type := ''quadratic''\<rparr>)
     \<notin> {''linear'', ''cspline'', ''polynomial''} \<and>
   linspace (Fin (xMin (para0\<lparr>interpolation_type := ''quadratic''\<rparr>)))
        (Fin (xMax (para0\<lparr>interpolation_type := ''quadratic''\<rparr>)))
        (nPoints (para0\<lparr>interpolation_type := ''quadratic''\<rparr>))
     = Inr [Fin 0, Fin (4 / 3), Fin (8 / 3), Fin 4] \<and>
   interpolate_potential lib0 (para0\<lparr>interpolation_type := ''quadratic''\<rparr>)
     = (Inl UnboundLocalError, [])"
  using linspace_para0
  by (simp add: interpolate_potential_def para0_def linspace_def)

text \<open>
  C8, amended: when the method name is none of \<^verbatim>\<open>linear\<close>, \<^verbatim>\<open>cspline\<close> and
  \<^verbatim>\<open>polynomial\<close>, the interpolation stage first builds the grid and then fails, and so
  do the Hamiltonian builder and the solver that call it: the run is aborted with that
  error, no sink has been called, the configuration is unchanged, and neither an
  interpolant nor the Hamiltonian nor an eigenpair has been computed. For a negative
  number of grid points the grid construction fails and the error is its ValueError;
  otherwise the grid of \<open>nPoints\<close> coordinates has been computed and the error is the
  UnboundLocalError of the call of the interpolation function that no branch has bound.
\<close>

theorem unknown_method_aborts:
  assumes "interpolation_type p \<noteq> ''linear''" and "interpolation_type p \<noteq> ''cspline''"
    and "interpolation_type p \<noteq> ''polynomial''"
  shows "\<exists>e. interpolate_potential lib p = (Inl e, []) \<and>
              write_hamiltonian lib p = (Inl e, p, []) \<and>
              solve_hamiltonian lib p = (Inl e, p, []) \<and>
              (nPoints p < 0 \<longrightarrow>
                 linspace (Fin (xMin p)) (Fin (xMax p)) (nPoints p) = Inl ValueError \<and>
                 e = ValueError) \<and>
              (0 \<le> nPoints p \<longrightarrow>
                 (\<exists>xaxis. linspace (Fin (xMin p)) (Fin (xMax p)) (nPoints p) = Inr xaxis \<and>
                           length xaxis = nat (nPoints p)) \<and>
                 e = UnboundLocalError)"
proof -
  have i: "interpolate_potential lib p = (Inl (if nPoints p < 0 then ValueError else UnboundLocalError), [])"
    using assms linspace_cases[of "nPoints p" "Fin (xMin p)" "Fin (xMax p)"]
    by (auto simp: interpolate_potential_def)
  have g: "nPoints p < 0 \<longrightarrow> linspace (Fin (xMin p)) (Fin (xMax p)) (nPoints p) = Inl ValueError"
    by (simp add: linspace_def)
  have h: "0 \<le> nPoints p \<longrightarrow>
                 (\<exists>xaxis. linspace (Fin (xMin p)) (Fin (xMax p)) (nPoints p) = Inr xaxis \<and>
                           length xaxis = nat (nPoints p))"
    using linspace_cases[of "nPoints p" "Fin (xMin p)" "Fin (xMax p)"] linspace_length
    by fastforce
  show ?thesis
    using i g h by (simp add: write_hamiltonian_def solve_hamiltonian_def)
qed

theorem unknown_method_aborts_witness:
  "\<exists>e. interpolate_potential lib0 (para0\<lparr>interpolation_type := ''quadratic''\<rparr>) = (Inl e, []) \<and>
       write_hamiltonian lib0 (para0\<lparr>interpolation_type := ''quadratic''\<rparr>)
         = (Inl e, para0\<lparr>interpolation_type := ''quadratic''\<rparr>, []) \<and>
       solve_hamiltonian lib0 (para0\<lparr>interpolation_type := ''quadratic''\<rparr>)
         = (Inl e, para0\<lparr>interpolation_type := ''quadratic''\<rparr>, []) \<and>
       (\<exists>xaxis. linspace (Fin (xMin (para0\<lparr>interpolation_type := ''quadratic''\<rparr>)))
                    (Fin (xMax (para0\<lparr>interpolation_type := ''quadratic''\<rparr>)))
                    (nPoints (para0\<lparr>interpolation_type := ''quadratic''\<rparr>)) = Inr xaxis \<and>
                 length xaxis = 4) \<and>
       e = UnboundLocalError"
  using unknown_method_aborts[of "para0\<lparr>interpolation_type := ''quadratic''\<rparr>" lib0]
  by (simp add: para0_def)


section \<open>Properties of the observables stage\<close>

lemma expectation_loop_append:
  "expectation_loop d x E (is @ js) st =
     (case expectation_loop d x E is st of Inl e \<Rightarrow> Inl e | Inr st' \<Rightarrow> expectation_loop d x E js st')"
proof (induction "is" arbitrary: st)
  case Nil
  show ?case by simp
next
  case (Cons i "is")
  obtain a b u where st: "st = (a, b, u)" by (cases st)
  show ?case unfolding st using Cons.IH by (simp split: sum.splits)
qed

lemma expectation_loop_upto:
  assumes "\<forall>c<m. position_moment d x E c = Inr (ev c)"
    and "\<forall>c<m. position_moment d (map np_pow2 x) E c = Inr (ev2 c)"
    and "length a = m" and "length b = m" and "length u = m" and "k \<le> m"
  shows "expectation_loop d x E [0..<k] (a, b, u)
         = Inr (map (\<lambda>c. if c < k then ev c else a ! c) [0..<m],
                map (\<lambda>c. if c < k then ev2 c else b ! c) [0..<m],
                map (\<lambda>c. if c < k then np_sqrt (np_sub (ev2 c) (np_pow2 (ev c))) else u ! c) [0..<m])"
  using assms(6)
proof (induction k)
  case 0
  show ?case using assms(3-5) map_nth[of a] map_nth[of b] map_nth[of u] by simp
next
  case (Suc k)
  then have km: "k < m" and IH: "expectation_loop d x E [0..<k] (a, b, u)
         = Inr (map (\<lambda>c. if c < k then ev c else a ! c) [0..<m],
                map (\<lambda>c. if c < k then ev2 c else b ! c) [0..<m],
                map (\<lambda>c. if c < k then np_sqrt (np_sub (ev2 c) (np_pow2 (ev c))) else u ! c) [0..<m])"
    by simp_all
  have upd: "\<And>f g. (map (\<lambda>c. if c < k then f c else g c) [0..<m])[k := f k]
             = map (\<lambda>c. if c < Suc k then f c else g c) [0..<m]"
    using km by (auto intro!: nth_equalityI simp: nth_list_update less_Suc_eq)
  show ?case
    using km assms(1,2)
    by (simp add: expectation_loop_append IH upd[of ev "\<lambda>c. a ! c"] upd[of ev2 "\<lambda>c. b ! c"]
          upd[of "\<lambda>c. np_sqrt (np_sub (ev2 c) (np_pow2 (ev c)))" "\<lambda>c. u ! c"])
qed

lemma position_moment_fit:
  assumes "ndarray2 n m E" "length x = n - 2"
  shows "position_moment d x E c
         = Inr (np_mul d (py_sum (map2 np_mul (map np_pow2 (column (interior E) c)) x)))"
  using assms interior_nth[of E]
  by (simp add: position_moment_def broadcast_def column_def ndarray2_def)

lemma expectation_values_general:
  assumes "ndarray2 n m E" and "2 \<le> n" and "nPoints p = int n" and "Delta p = Some d"
  shows "\<exists>x_i. linspace (np_add (Fin (xMin p)) d) (np_sub (Fin (xMax p)) d) (nPoints p - 2) = Inr x_i \<and>
           length x_i = n - 2 \<and>
           expectation_values p E
           = (Inr (), [Write_expectation_values
                (map (\<lambda>c. np_mul d (py_sum (map2 np_mul (map np_pow2 (column (interior E) c)) x_i))) [0..<m])
                (map (\<lambda>c. np_sqrt (np_sub
                    (np_mul d (py_sum (map2 np_mul (map np_pow2 (column (interior E) c)) (map np_pow2 x_i))))
                    (np_pow2 (np_mul d (py_sum (map2 np_mul (map np_pow2 (column (interior E) c)) x_i))))))
                   [0..<m])
                (directory p)])"
proof -
  from assms(1,2) obtain row0 rest where E: "E = row0 # rest"
    by (cases E) (auto simp: ndarray2_def)
  have l0: "length row0 = m" using assms(1) E by (simp add: ndarray2_def)
  from assms(2,3) linspace_cases[of "nPoints p - 2" "np_add (Fin (xMin p)) d" "np_sub (Fin (xMax p)) d"]
  obtain x_i where x: "linspace (np_add (Fin (xMin p)) d) (np_sub (Fin (xMax p)) d) (nPoints p - 2) = Inr x_i"
    by auto
  have lx: "length x_i = n - 2" using linspace_length[OF x] assms(3) by simp
  have lx2: "length (map np_pow2 x_i) = n - 2" using lx by simp
  have loop: "expectation_loop d x_i E [0..<m] (replicate m (Fin 0), replicate m (Fin 0), replicate m (Fin 0))
     = Inr (map (\<lambda>c. if c < m then np_mul d (py_sum (map2 np_mul (map np_pow2 (column (interior E) c)) x_i)) else replicate m (Fin 0) ! c) [0..<m],
            map (\<lambda>c. if c < m then np_mul d (py_sum (map2 np_mul (map np_pow2 (column (interior E) c)) (map np_pow2 x_i))) else replicate m (Fin 0) ! c) [0..<m],
            map (\<lambda>c. if c < m then np_sqrt (np_sub
                    (np_mul d (py_sum (map2 np_mul (map np_pow2 (column (interior E) c)) (map np_pow2 x_i))))
                    (np_pow2 (np_mul d (py_sum (map2 np_mul (map np_pow2 (column (interior E) c)) x_i))))) else replicate m (Fin 0) ! c) [0..<m])"
    by (rule expectation_loop_upto)
       (simp_all add: position_moment_fit[OF assms(1) lx] position_moment_fit[OF assms(1) lx2])
  have "expectation_values p E
           = (Inr (), [Write_expectation_values
                (map (\<lambda>c. np_mul d (py_sum (map2 np_mul (map np_pow2 (column (interior E) c)) x_i))) [0..<m])
                (map (\<lambda>c. np_sqrt (np_sub
                    (np_mul d (py_sum (map2 np_mul (map np_pow2 (column (interior E) c)) (map np_pow2 x_i))))
                    (np_pow2 (np_mul d (py_sum (map2 np_mul (map np_pow2 (column (interior E) c)) x_i))))))
                   [0..<m])
                (directory p)])"
    unfolding expectation_values_def E list.case l0 Let_def assms(4) option.case x sum.case
      loop[unfolded E]
    by (simp cong: map_cong)
  with x lx show ?thesis by blast
qed

lemma interior_upt: "interior xs = map (\<lambda>i. xs ! Suc i) [0..<length xs - 2]"
  using interior_nth[of xs] by (auto intro!: nth_equalityI)

lemma sum_upt_shift:
  "(\<Sum>i\<leftarrow>[0..<n - 2]. f (Suc i)) = (\<Sum>r = 1..<n - 1. (f r :: real))"
proof -
  have "(\<Sum>i\<leftarrow>[0..<n - 2]. f (Suc i)) = (\<Sum>i = 0..<n - 2. f (Suc i))"
    by (simp add: interv_sum_list_conv_sum_set_nat)
  also have "\<dots> = (\<Sum>r = Suc 0..<Suc (n - 2). f r)"
    by (simp only: sum.shift_bounds_Suc_ivl)
  also have "Suc (n - 2) = (if n < 2 then 1 else n - 1)" by auto
  finally show ?thesis by (auto split: if_splits)
qed

lemma ndarray2_fin_array: "ndarray2 n m R \<Longrightarrow> ndarray2 n m (fin_array R)"
  by (auto simp: ndarray2_def fin_array_def)

lemma moment_fin:
  assumes "ndarray2 n m R" "c < m"
  shows "np_mul (Fin \<delta>) (py_sum (map2 np_mul (map np_pow2 (column (interior (fin_array R)) c))
            (map (\<lambda>i. Fin (g (Suc i))) [0..<n - 2])))
         = Fin (\<delta> * (\<Sum>r = 1..<n - 1. (R ! r ! c)\<^sup>2 * g r))"
proof -
  have len: "length R = n" and rows: "\<forall>row\<in>set R. length row = m"
    using assms(1) by (simp_all add: ndarray2_def)
  have nth: "\<And>i. i < n - 2 \<Longrightarrow> c < length (R ! Suc i)"
    using rows len assms(2) by (simp add: Suc_lessI)
  have "column (interior (fin_array R)) c = map (\<lambda>i. Fin (R ! Suc i ! c)) [0..<n - 2]"
    unfolding fin_array_def interior_map
    using nth by (simp add: interior_upt[of R] len column_def)
  then have "map2 np_mul (map np_pow2 (column (interior (fin_array R)) c))
            (map (\<lambda>i. Fin (g (Suc i))) [0..<n - 2])
        = map (\<lambda>i. Fin ((R ! Suc i ! c)\<^sup>2 * g (Suc i))) [0..<n - 2]"
    by (simp add: zip_map_map zip_same_conv_map np_pow2_def power2_eq_square)
  then show ?thesis
    by (simp add: py_sum_Fin sum_upt_shift[of "\<lambda>r. (R ! r ! c)\<^sup>2 * g r" n])
qed

lemma variance_nonneg:
  fixes w x :: "nat \<Rightarrow> real"
  assumes "\<forall>r\<in>S. 0 \<le> w r" "(\<Sum>r\<in>S. w r) = 1"
  shows "(\<Sum>r\<in>S. w r * x r)\<^sup>2 \<le> (\<Sum>r\<in>S. w r * (x r)\<^sup>2)"
proof -
  define \<mu> where "\<mu> = (\<Sum>r\<in>S. w r * x r)"
  have "0 \<le> (\<Sum>r\<in>S. w r * (x r - \<mu>)\<^sup>2)"
    using assms(1) by (intro sum_nonneg mult_nonneg_nonneg) auto
  also have "(\<Sum>r\<in>S. w r * (x r - \<mu>)\<^sup>2)
        = (\<Sum>r\<in>S. w r * (x r)\<^sup>2 - 2 * \<mu> * (w r * x r) + \<mu>\<^sup>2 * w r)"
    by (intro sum.cong) (auto simp: power2_diff algebra_simps)
  also have "\<dots> = (\<Sum>r\<in>S. w r * (x r)\<^sup>2) - 2 * \<mu> * (\<Sum>r\<in>S. w r * x r) + \<mu>\<^sup>2 * (\<Sum>r\<in>S. w r)"
    by (simp add: sum.distrib sum_subtractf sum_distrib_left)
  also have "\<dots> = (\<Sum>r\<in>S. w r * (x r)\<^sup>2) - \<mu>\<^sup>2"
    by (simp add: assms(2) \<mu>_def[symmetric] power2_eq_square)
  finally show ?thesis by (simp add: \<mu>_def)
qed

text \<open>
  C5, amended: for an array of \<open>n = nPoints \<ge> 3\<close> rows of finite numbers whose columns are
  normalised, the observables stage passes to its sink, per eigenstate \<open>c\<close>, the pair
  \<open>\<langle>x\<rangle> = \<Delta> * \<Sum> \<psi>\<^sub>r\<^sup>2 * x\<^sub>r\<close> and \<open>sqrt (\<langle>x\<^sup>2\<rangle> - \<langle>x\<rangle>\<^sup>2)\<close> with \<open>\<langle>x\<^sup>2\<rangle> = \<Delta> * \<Sum> \<psi>\<^sub>r\<^sup>2 * x\<^sub>r\<^sup>2\<close>
  (the radicand is never negative over exact arithmetic), the sums taken over the rows
  \<open>r = 1 .. n-2\<close>. The interior coordinates are the \<open>n - 2\<close> evenly spaced points
  \<open>x\<^sub>r = xMin + \<Delta> + (r - 1) * h\<close> from \<open>xMin + \<Delta>\<close> to \<open>xMax - \<Delta>\<close>; their step is
  \<open>h = (xMax - xMin - 2 * \<Delta>) / (n - 3)\<close>, which for the \<open>\<Delta> = (xMax - xMin) / n\<close> of the
  Hamiltonian builder is \<open>\<Delta> * (n - 2) / (n - 3)\<close> and not \<open>\<Delta>\<close> (for \<open>n = 3\<close> there is
  the single coordinate \<open>xMin + \<Delta>\<close>).
\<close>

theorem expectation_values_observables:
  assumes "ndarray2 n m R" and "3 \<le> n" and "nPoints p = int n" and "Delta p = Some (Fin \<delta>)"
    and "\<forall>c<m. \<delta> * (\<Sum>r = 1..<n - 1. \<bar>R ! r ! c\<bar>\<^sup>2) = 1"
  shows "\<exists>h x ex ex2.
      h = (xMax p - xMin p - 2 * \<delta>) / (real n - 3) \<and>
      (\<forall>r. x r = xMin p + \<delta> + (real r - 1) * h) \<and>
      x 1 = xMin p + \<delta> \<and> (4 \<le> n \<longrightarrow> x (n - 2) = xMax p - \<delta>) \<and>
      (4 \<le> n \<and> \<delta> = (xMax p - xMin p) / real n \<longrightarrow> h = \<delta> * (real n - 2) / (real n - 3)) \<and>
      linspace (np_add (Fin (xMin p)) (Fin \<delta>)) (np_sub (Fin (xMax p)) (Fin \<delta>)) (nPoints p - 2)
        = Inr (map (\<lambda>r. Fin (x r)) [1..<n - 1]) \<and>
      (\<forall>c. ex c = \<delta> * (\<Sum>r = 1..<n - 1. (R ! r ! c)\<^sup>2 * x r)) \<and>
      (\<forall>c. ex2 c = \<delta> * (\<Sum>r = 1..<n - 1. (R ! r ! c)\<^sup>2 * (x r)\<^sup>2)) \<and>
      (\<forall>c<m. 0 \<le> ex2 c - (ex c)\<^sup>2) \<and>
      expectation_values p (fin_array R)
        = (Inr (), [Write_expectation_values (map (\<lambda>c. Fin (ex c)) [0..<m])
                      (map (\<lambda>c. Fin (sqrt (ex2 c - (ex c)\<^sup>2))) [0..<m]) (directory p)])"
proof -
  define h where "h = (xMax p - xMin p - 2 * \<delta>) / (real n - 3)"
  define x where "x = (\<lambda>r. xMin p + \<delta> + (real r - 1) * h)"
  define ex where "ex = (\<lambda>c. \<delta> * (\<Sum>r = 1..<n - 1. (R ! r ! c)\<^sup>2 * x r))"
  define ex2 where "ex2 = (\<lambda>c. \<delta> * (\<Sum>r = 1..<n - 1. (R ! r ! c)\<^sup>2 * (x r)\<^sup>2))"
  have x1: "x 1 = xMin p + \<delta>" by (simp add: x_def)
  have xl: "x (n - 2) = xMax p - \<delta>" if "4 \<le> n"
  proof -
    have "real (n - 2) - 1 = real n - 3" using that by (simp add: of_nat_diff)
    moreover have "real n - 3 \<noteq> 0" using that by simp
    ultimately show ?thesis by (simp add: x_def h_def)
  qed
  have hd: "h = \<delta> * (real n - 2) / (real n - 3)" if "4 \<le> n" "\<delta> = (xMax p - xMin p) / real n"
  proof -
    have "xMax p - xMin p = \<delta> * real n" using that by simp
    then show ?thesis unfolding h_def by (simp add: algebra_simps)
  qed
  have num: "nPoints p - 2 = int (n - 2)" "0 \<le> nPoints p - 2"
    using assms(2,3) by simp_all
  have dv: "real_of_int (nPoints p - 2 - 1) = real n - 3"
    using assms(2,3) by simp
  have grid: "linspace (np_add (Fin (xMin p)) (Fin \<delta>)) (np_sub (Fin (xMax p)) (Fin \<delta>)) (nPoints p - 2)
        = Inr (map (\<lambda>i. Fin (x (Suc i))) [0..<n - 2])"
    using linspace_fin[OF num(2), of "xMin p + \<delta>" "xMax p - \<delta>"]
    unfolding dv
    by (simp add: np_sub_def num(1) x_def h_def algebra_simps)
  have reindex: "map (\<lambda>i. Fin (x (Suc i))) [0..<n - 2] = map (\<lambda>r. Fin (x r)) [1..<n - 1]"
    using assms(2) by (auto intro!: nth_equalityI)
  have shape: "ndarray2 n m (fin_array R)"
    by (rule ndarray2_fin_array[OF assms(1)])
  have n2: "2 \<le> n" using assms(2) by simp
  from expectation_values_general[OF shape n2 assms(3,4)] grid
  have run: "expectation_values p (fin_array R)
           = (Inr (), [Write_expectation_values
                (map (\<lambda>c. np_mul (Fin \<delta>) (py_sum (map2 np_mul (map np_pow2 (column (interior (fin_array R)) c))
                      (map (\<lambda>i. Fin (x (Suc i))) [0..<n - 2])))) [0..<m])
                (map (\<lambda>c. np_sqrt (np_sub
                    (np_mul (Fin \<delta>) (py_sum (map2 np_mul (map np_pow2 (column (interior (fin_array R)) c))
                       (map np_pow2 (map (\<lambda>i. Fin (x (Suc i))) [0..<n - 2])))))
                    (np_pow2 (np_mul (Fin \<delta>) (py_sum (map2 np_mul (map np_pow2 (column (interior (fin_array R)) c))
                       (map (\<lambda>i. Fin (x (Suc i))) [0..<n - 2])))))))
                   [0..<m])
                (directory p)])"
    by auto
  have sq: "map np_pow2 (map (\<lambda>i. Fin (x (Suc i))) [0..<n - 2]) = map (\<lambda>i. Fin ((x (Suc i))\<^sup>2)) [0..<n - 2]"
    by (simp add: np_pow2_def power2_eq_square)
  have m1: "np_mul (Fin \<delta>) (py_sum (map2 np_mul (map np_pow2 (column (interior (fin_array R)) c))
                      (map (\<lambda>i. Fin (x (Suc i))) [0..<n - 2]))) = Fin (ex c)" if "c < m" for c
    unfolding ex_def by (rule moment_fin[OF assms(1) that])
  have m2: "np_mul (Fin \<delta>) (py_sum (map2 np_mul (map np_pow2 (column (interior (fin_array R)) c))
                      (map np_pow2 (map (\<lambda>i. Fin (x (Suc i))) [0..<n - 2])))) = Fin (ex2 c)" if "c < m" for c
    unfolding ex2_def sq by (rule moment_fin[OF assms(1) that, of \<delta> "\<lambda>r. (x r)\<^sup>2"])
  have var: "0 \<le> ex2 c - (ex c)\<^sup>2" if c: "c < m" for c
  proof -
    have one: "(\<Sum>r = 1..<n - 1. \<delta> * (R ! r ! c)\<^sup>2) = 1"
      using assms(5) c by (simp add: sum_distrib_left)
    have "0 \<le> (\<Sum>r = 1..<n - 1. (R ! r ! c)\<^sup>2)" by (intro sum_nonneg) simp
    moreover have "\<delta> * (\<Sum>r = 1..<n - 1. (R ! r ! c)\<^sup>2) = 1" using assms(5) c by simp
    ultimately have d: "0 < \<delta>"
      by (metis less_eq_real_def mult_zero_right not_one_le_zero zero_less_mult_pos2 zero_less_one zero_neq_one linorder_not_less mult_nonpos_nonneg)
    have "(\<Sum>r = 1..<n - 1. (\<delta> * (R ! r ! c)\<^sup>2) * x r)\<^sup>2
          \<le> (\<Sum>r = 1..<n - 1. (\<delta> * (R ! r ! c)\<^sup>2) * (x r)\<^sup>2)"
      using d by (intro variance_nonneg one) simp
    then show ?thesis
      by (simp add: ex_def ex2_def sum_distrib_left mult.assoc)
  qed
  have unc: "np_sqrt (np_sub (Fin (ex2 c)) (np_pow2 (Fin (ex c)))) = Fin (sqrt (ex2 c - (ex c)\<^sup>2))"
    if "c < m" for c
    using var[OF that] by (simp add: np_sub_def np_pow2_def power2_eq_square)
  have run': "expectation_values p (fin_array R)
        = (Inr (), [Write_expectation_values (map (\<lambda>c. Fin (ex c)) [0..<m])
                      (map (\<lambda>c. Fin (sqrt (ex2 c - (ex c)\<^sup>2))) [0..<m]) (directory p)])"
    unfolding run using m1 m2 unc by (simp cong: map_cong)
  have c2: "\<forall>r. x r = xMin p + \<delta> + (real r - 1) * h" by (simp add: x_def)
  have c7: "\<forall>c. ex c = \<delta> * (\<Sum>r = 1..<n - 1. (R ! r ! c)\<^sup>2 * x r)" by (simp add: ex_def)
  have c8: "\<forall>c. ex2 c = \<delta> * (\<Sum>r = 1..<n - 1. (R ! r ! c)\<^sup>2 * (x r)\<^sup>2)" by (simp add: ex2_def)
  from h_def c2 x1 xl hd grid[unfolded reindex] c7 c8 var run' show ?thesis by blast
qed

theorem expectation_values_observables_witness:
  "\<exists>h x ex ex2.
      h = (xMax (para0\<lparr>Delta := Some (Fin 1)\<rparr>) - xMin (para0\<lparr>Delta := Some (Fin 1)\<rparr>) - 2 * 1) / (real 4 - 3) \<and>
      (\<forall>r. x r = xMin (para0\<lparr>Delta := Some (Fin 1)\<rparr>) + 1 + (real r - 1) * h) \<and>
      x 1 = xMin (para0\<lparr>Delta := Some (Fin 1)\<rparr>) + 1 \<and>
      (4 \<le> (4::nat) \<longrightarrow> x (4 - 2) = xMax (para0\<lparr>Delta := Some (Fin 1)\<rparr>) - 1) \<and>
      (4 \<le> (4::nat) \<and> 1 = (xMax (para0\<lparr>Delta := Some (Fin 1)\<rparr>) - xMin (para0\<lparr>Delta := Some (Fin 1)\<rparr>)) / real 4
         \<longrightarrow> h = 1 * (real 4 - 2) / (real 4 - 3)) \<and>
      linspace (np_add (Fin (xMin (para0\<lparr>Delta := Some (Fin 1)\<rparr>))) (Fin 1))
          (np_sub (Fin (xMax (para0\<lparr>Delta := Some (Fin 1)\<rparr>))) (Fin 1))
          (nPoints (para0\<lparr>Delta := Some (Fin 1)\<rparr>) - 2)
        = Inr (map (\<lambda>r. Fin (x r)) [1..<4 - 1]) \<and>
      (\<forall>c. ex c = 1 * (\<Sum>r = 1..<4 - 1. ([[0], [0], [1], [0]] ! r ! c)\<^sup>2 * x r)) \<and>
      (\<forall>c. ex2 c = 1 * (\<Sum>r = 1..<4 - 1. ([[0], [0], [1], [0]] ! r ! c)\<^sup>2 * (x r)\<^sup>2)) \<and>
      (\<forall>c<1. 0 \<le> ex2 c - (ex c)\<^sup>2) \<and>
      expectation_values (para0\<lparr>Delta := Some (Fin 1)\<rparr>) (fin_array [[0], [0], [1], [0]])
        = (Inr (), [Write_expectation_values (map (\<lambda>c. Fin (ex c)) [0..<1])
                      (map (\<lambda>c. Fin (sqrt (ex2 c - (ex c)\<^sup>2))) [0..<1])
                      (directory (para0\<lparr>Delta := Some (Fin 1)\<rparr>))])"
proof -
  have shape: "ndarray2 4 1 [[0], [0], [1], [0::real]]"
    by (simp add: ndarray2_def)
  have n: "3 \<le> (4::nat)" by simp
  have np: "nPoints (para0\<lparr>Delta := Some (Fin 1)\<rparr>) = int 4" by (simp add: para0_def)
  have d: "Delta (para0\<lparr>Delta := Some (Fin 1)\<rparr>) = Some (Fin 1)" by simp
  have nrm: "\<forall>c<1. 1 * (\<Sum>r = 1..<4 - 1. \<bar>[[0], [0], [1], [0::real]] ! r ! c\<bar>\<^sup>2) = 1"
    by (simp add: sum.atLeast_Suc_lessThan)
  show ?thesis
    by (rule expectation_values_observables[OF shape n np d nrm])
qed

text \<open>
  C5 fails as stated. In the configuration \<open>para0\<close> (four grid points on \<open>[0, 4]\<close>, so
  \<open>\<Delta> = 1\<close>) the interior coordinates are \<open>1\<close> and \<open>3\<close>: they are two points apart, not
  \<open>\<Delta>\<close>. For the normalised eigenvector \<open>(0, 0, 1, 0)\<close> the stage writes \<open>\<langle>x\<rangle> = 3\<close>, where
  coordinates in steps of \<open>\<Delta>\<close> from \<open>xMin + \<Delta>\<close> would give \<open>2\<close>.
\<close>

theorem interior_coordinates_counterexample:
  "fst (snd (write_hamiltonian lib0 para0)) = para0\<lparr>Delta := Some (Fin 1)\<rparr> \<and>
   1 * (\<Sum>r = 1..<4 - 1. \<bar>[[0], [0], [1], [0::real]] ! r ! 0\<bar>\<^sup>2) = (1::real) \<and>
   linspace (np_add (Fin (xMin para0)) (Fin 1)) (np_sub (Fin (xMax para0)) (Fin 1)) (nPoints para0 - 2)
     = Inr [Fin 1, Fin 3] \<and>
   expectation_values (para0\<lparr>Delta := Some (Fin 1)\<rparr>) (fin_array [[0], [0], [1], [0]])
     = (Inr (), [Write_expectation_values [Fin 3] [Fin 0] ''out''])"
proof -
  have g: "linspace (Fin 1) (Fin 3) 2 = Inr [Fin 1, Fin 3]"
    by (simp add: linspace_fin upt_rec)
  have a: "1 * (\<Sum>r = 1..<4 - 1. \<bar>[[0], [0], [1], [0::real]] ! r ! 0\<bar>\<^sup>2) = (1::real)"
    by (simp add: sum.atLeast_Suc_lessThan)
  have b: "linspace (np_add (Fin (xMin para0)) (Fin 1)) (np_sub (Fin (xMax para0)) (Fin 1)) (nPoints para0 - 2)
     = Inr [Fin 1, Fin 3]"
    by (simp add: para0_def np_sub_def g)
  have c: "expectation_values (para0\<lparr>Delta := Some (Fin 1)\<rparr>) (fin_array [[0], [0], [1], [0]])
     = (Inr (), [Write_expectation_values [Fin 3] [Fin 0] ''out''])"
    by (simp add: expectation_values_def fin_array_def g Let_def position_moment_def broadcast_def
          column_def interior_def py_sum_def np_pow2_def np_sub_def para0_def)
  have w: "fst (snd (write_hamiltonian lib0 para0)) = para0\<lparr>Delta := Some (Fin 1)\<rparr>"
    by (simp add: write_hamiltonian_para0)
  from w a b c show ?thesis by blast
qed

section \<open>Degenerate eigenvectors\<close>

lemma norm_eigenvectors_general:
  assumes "ndarray2 n m E" "0 < n" "Delta p = Some d"
  shows "norm_eigenvectors E p = Inr (normalized_upto m d E)"
proof -
  from assms(1,2) obtain row0 rest where E: "E = row0 # rest"
    by (cases E) (auto simp: ndarray2_def)
  have rows: "\<forall>row \<in> set E. length row = m" using assms(1) by (simp add: ndarray2_def)
  have l0: "length row0 = m" using rows E by simp
  have "norm_eigenvectors E p = norm_loop [0..<m] E p"
    by (simp add: norm_eigenvectors_def E l0)
  also have "\<dots> = Inr (normalized_upto m d E)"
    by (rule norm_loop_upto[OF rows assms(3)]) simp
  finally show ?thesis .
qed

lemma normalized_upto_shape: "ndarray2 n m E \<Longrightarrow> ndarray2 n m (normalized_upto k d E)"
  by (auto simp: ndarray2_def normalized_upto_def)

lemma normalized_upto_nth:
  assumes "ndarray2 n m E" "r < n" "c < m"
  shows "normalized_upto m d E ! r ! c = np_div (E ! r ! c) (np_sqrt (eigenvector_norm d E c))"
  using assms by (auto simp: ndarray2_def normalized_upto_def)

text \<open>
  C6, amended: the pipeline has no detection of these degeneracies. For every array of
  \<open>n = nPoints \<ge> 2\<close> rows the normaliser returns normally, each entry divided by
  \<^verbatim>\<open>np.sqrt\<close> of its column's interior quadrature sum whatever the sign of that sum:
  when the sum is zero a zero component becomes NaN, when the sum is negative every
  component becomes NaN; the solver passes this array to the eigenvector sink. The
  observables stage returns normally too and passes \<^verbatim>\<open>np.sqrt\<close> of the radicand
  \<open>\<langle>x\<^sup>2\<rangle> - \<langle>x\<rangle>\<^sup>2\<close> to its sink: NaN whenever the radicand is negative. Nothing is
  clamped and no failure is raised.
\<close>

theorem no_degeneracy_detection:
  assumes "ndarray2 n m E" and "2 \<le> n" and "nPoints p = int n" and "Delta p = Some d"
  shows "\<exists>E' x_i ev ev2.
     norm_eigenvectors E p = Inr E' \<and> ndarray2 n m E' \<and>
     (\<forall>r<n. \<forall>c<m. E' ! r ! c = np_div (E ! r ! c) (np_sqrt (eigenvector_norm d E c))) \<and>
     (\<forall>r<n. \<forall>c<m. eigenvector_norm d E c = Fin 0 \<and> E ! r ! c = Fin 0 \<longrightarrow> E' ! r ! c = NaN) \<and>
     (\<forall>r<n. \<forall>c<m. (\<exists>q<0. eigenvector_norm d E c = Fin q) \<longrightarrow> E' ! r ! c = NaN) \<and>
     (\<forall>lib p0 dg off ws vals.
        write_hamiltonian lib p0 = (Inr (dg, off), p, ws) \<and>
        eigh_tridiagonal lib dg off (first_eigenvalue p - 1, last_eigenvalue p - 1) = Inr (vals, E)
        \<longrightarrow> (\<exists>xaxis. solve_hamiltonian lib p0
               = (Inr (vals, E'), p,
                  ws @ [Write_eigenvalues vals (directory p),
                        Write_eigenvectors E' xaxis (directory p)]))) \<and>
     (\<forall>c<m. position_moment d x_i E c = Inr (ev c) \<and>
             position_moment d (map np_pow2 x_i) E c = Inr (ev2 c)) \<and>
     expectation_values p E
       = (Inr (), [Write_expectation_values (map ev [0..<m])
                     (map (\<lambda>c. np_sqrt (np_sub (ev2 c) (np_pow2 (ev c)))) [0..<m]) (directory p)]) \<and>
     (\<forall>c<m. (\<exists>q<0. np_sub (ev2 c) (np_pow2 (ev c)) = Fin q)
         \<longrightarrow> map (\<lambda>c. np_sqrt (np_sub (ev2 c) (np_pow2 (ev c)))) [0..<m] ! c = NaN)"
proof -
  define E' where "E' = normalized_upto m d E"
  have n0: "0 < n" using assms(2) by simp
  have run: "norm_eigenvectors E p = Inr E'"
    unfolding E'_def by (rule norm_eigenvectors_general[OF assms(1) n0 assms(4)])
  have shape: "ndarray2 n m E'"
    unfolding E'_def by (rule normalized_upto_shape[OF assms(1)])
  have ent: "\<forall>r<n. \<forall>c<m. E' ! r ! c = np_div (E ! r ! c) (np_sqrt (eigenvector_norm d E c))"
    unfolding E'_def using normalized_upto_nth[OF assms(1)] by simp
  have zero: "\<forall>r<n. \<forall>c<m. eigenvector_norm d E c = Fin 0 \<and> E ! r ! c = Fin 0 \<longrightarrow> E' ! r ! c = NaN"
    using ent by simp
  have neg: "\<forall>r<n. \<forall>c<m. (\<exists>q<0. eigenvector_norm d E c = Fin q) \<longrightarrow> E' ! r ! c = NaN"
  proof (intro allI impI)
    fix r c assume rc: "r < n" "c < m" and "\<exists>q<0. eigenvector_norm d E c = Fin q"
    then obtain q where q: "q < 0" "eigenvector_norm d E c = Fin q" by blast
    have "np_div (E ! r ! c) NaN = NaN" by (cases "E ! r ! c") simp_all
    then show "E' ! r ! c = NaN" using ent rc q by simp
  qed
  from linspace_cases[of "nPoints p" "Fin (xMin p)" "Fin (xMax p)"] assms(2,3)
  obtain xaxis where xaxis: "linspace (Fin (xMin p)) (Fin (xMax p)) (nPoints p) = Inr xaxis"
    by auto
  have solve: "\<forall>lib p0 dg off ws vals.
        write_hamiltonian lib p0 = (Inr (dg, off), p, ws) \<and>
        eigh_tridiagonal lib dg off (first_eigenvalue p - 1, last_eigenvalue p - 1) = Inr (vals, E)
        \<longrightarrow> (\<exists>xaxis. solve_hamiltonian lib p0
               = (Inr (vals, E'), p,
                  ws @ [Write_eigenvalues vals (directory p),
                        Write_eigenvectors E' xaxis (directory p)]))"
    by (auto simp: solve_hamiltonian_def run xaxis)
  from expectation_values_general[OF assms]
  obtain x_i where x: "length x_i = n - 2"
    and ev: "expectation_values p E
           = (Inr (), [Write_expectation_values
                (map (\<lambda>c. np_mul d (py_sum (map2 np_mul (map np_pow2 (column (interior E) c)) x_i))) [0..<m])
                (map (\<lambda>c. np_sqrt (np_sub
                    (np_mul d (py_sum (map2 np_mul (map np_pow2 (column (interior E) c)) (map np_pow2 x_i))))
                    (np_pow2 (np_mul d (py_sum (map2 np_mul (map np_pow2 (column (interior E) c)) x_i))))))
                   [0..<m])
                (directory p)])"
    by blast
  define ev1 where "ev1 = (\<lambda>c. np_mul d (py_sum (map2 np_mul (map np_pow2 (column (interior E) c)) x_i)))"
  define ev2 where "ev2 = (\<lambda>c. np_mul d (py_sum (map2 np_mul (map np_pow2 (column (interior E) c)) (map np_pow2 x_i))))"
  have x2: "length (map np_pow2 x_i) = n - 2" using x by simp
  have pm: "\<forall>c<m. position_moment d x_i E c = Inr (ev1 c) \<and>
             position_moment d (map np_pow2 x_i) E c = Inr (ev2 c)"
    by (simp add: ev1_def ev2_def position_moment_fit[OF assms(1) x] position_moment_fit[OF assms(1) x2])
  have out: "expectation_values p E
       = (Inr (), [Write_expectation_values (map ev1 [0..<m])
                     (map (\<lambda>c. np_sqrt (np_sub (ev2 c) (np_pow2 (ev1 c)))) [0..<m]) (directory p)])"
    unfolding ev ev1_def ev2_def ..
  have nan: "\<forall>c<m. (\<exists>q<0. np_sub (ev2 c) (np_pow2 (ev1 c)) = Fin q)
         \<longrightarrow> map (\<lambda>c. np_sqrt (np_sub (ev2 c) (np_pow2 (ev1 c)))) [0..<m] ! c = NaN"
    by auto
  from run shape ent zero neg solve pm out nan show ?thesis by blast
qed

theorem no_degeneracy_detection_witness:
  "\<exists>E' x_i ev ev2.
     norm_eigenvectors [[Fin (1 / sqrt 2)], [Fin 0], [Fin (- (1 / sqrt 2))]] (para3\<lparr>Delta := Some (Fin 1)\<rparr>) = Inr E' \<and>
     ndarray2 3 1 E' \<and>
     (\<forall>r<3. \<forall>c<1. E' ! r ! c = np_div ([[Fin (1 / sqrt 2)], [Fin 0], [Fin (- (1 / sqrt 2))]] ! r ! c)
         (np_sqrt (eigenvector_norm (Fin 1) [[Fin (1 / sqrt 2)], [Fin 0], [Fin (- (1 / sqrt 2))]] c))) \<and>
     (\<forall>r<3. \<forall>c<1. eigenvector_norm (Fin 1) [[Fin (1 / sqrt 2)], [Fin 0], [Fin (- (1 / sqrt 2))]] c = Fin 0 \<and>
         [[Fin (1 / sqrt 2)], [Fin 0], [Fin (- (1 / sqrt 2))]] ! r ! c = Fin 0 \<longrightarrow> E' ! r ! c = NaN) \<and>
     (\<forall>r<3. \<forall>c<1. (\<exists>q<0. eigenvector_norm (Fin 1) [[Fin (1 / sqrt 2)], [Fin 0], [Fin (- (1 / sqrt 2))]] c = Fin q)
         \<longrightarrow> E' ! r ! c = NaN) \<and>
     (\<forall>lib p0 dg off ws vals.
        write_hamiltonian lib p0 = (Inr (dg, off), para3\<lparr>Delta := Some (Fin 1)\<rparr>, ws) \<and>
        eigh_tridiagonal lib dg off
          (first_eigenvalue (para3\<lparr>Delta := Some (Fin 1)\<rparr>) - 1, last_eigenvalue (para3\<lparr>Delta := Some (Fin 1)\<rparr>) - 1)
          = Inr (vals, [[Fin (1 / sqrt 2)], [Fin 0], [Fin (- (1 / sqrt 2))]])
        \<longrightarrow> (\<exists>xaxis. solve_hamiltonian lib p0
               = (Inr (vals, E'), para3\<lparr>Delta := Some (Fin 1)\<rparr>,
                  ws @ [Write_eigenvalues vals (directory (para3\<lparr>Delta := Some (Fin 1)\<rparr>)),
                        Write_eigenvectors E' xaxis (directory (para3\<lparr>Delta := Some (Fin 1)\<rparr>))]))) \<and>
     (\<forall>c<1. position_moment (Fin 1) x_i [[Fin (1 / sqrt 2)], [Fin 0], [Fin (- (1 / sqrt 2))]] c = Inr (ev c) \<and>
             position_moment (Fin 1) (map np_pow2 x_i) [[Fin (1 / sqrt 2)], [Fin 0], [Fin (- (1 / sqrt 2))]] c = Inr (ev2 c)) \<and>
     expectation_values (para3\<lparr>Delta := Some (Fin 1)\<rparr>) [[Fin (1 / sqrt 2)], [Fin 0], [Fin (- (1 / sqrt 2))]]
       = (Inr (), [Write_expectation_values (map ev [0..<1])
                     (map (\<lambda>c. np_sqrt (np_sub (ev2 c) (np_pow2 (ev c)))) [0..<1])
                     (directory (para3\<lparr>Delta := Some (Fin 1)\<rparr>))]) \<and>
     (\<forall>c<1. (\<exists>q<0. np_sub (ev2 c) (np_pow2 (ev c)) = Fin q)
         \<longrightarrow> map (\<lambda>c. np_sqrt (np_sub (ev2 c) (np_pow2 (ev c)))) [0..<1] ! c = NaN)"
proof -
  have shape: "ndarray2 3 1 [[Fin (1 / sqrt 2)], [Fin 0], [Fin (- (1 / sqrt 2))]]"
    by (simp add: ndarray2_def)
  have n: "2 \<le> (3::nat)" by simp
  have np: "nPoints (para3\<lparr>Delta := Some (Fin 1)\<rparr>) = int 3" by (simp add: para3_def)
  have d: "Delta (para3\<lparr>Delta := Some (Fin 1)\<rparr>) = Some (Fin 1)" by simp
  show ?thesis
    by (rule no_degeneracy_detection[OF shape n np d])
qed

lemma interpolate_potential_para3: "interpolate_potential lib3 para3 = (Inr [Fin 0, Fin 0, Fin 0],
   [Write_potential [Fin 0, Fin (3/2), Fin 3] [Fin 0, Fin 0, Fin 0] ''out''])"
  by (simp add: interpolate_potential_def para3_def para0_def linspace_fin upt_rec interp1d_def call_linear_def searchsorted_def py_index_def np_sub_def)

lemma write_hamiltonian_para3: "write_hamiltonian lib3 para3 = (Inr ([Fin 1, Fin 1, Fin 1], [Fin (-1/2), Fin (-1/2)]), para3\<lparr>Delta := Some (Fin 1)\<rparr>,
   [Write_potential [Fin 0, Fin (3/2), Fin 3] [Fin 0, Fin 0, Fin 0] ''out''])"
  by (simp add: write_hamiltonian_def interpolate_potential_para3 Let_def np_ones_def np_pow2_def numeral_2_eq_2) 
     (simp add: para3_def para0_def numeral_2_eq_2)

lemma norm_eigenvectors_para3: "norm_eigenvectors [[Fin (1 / sqrt 2)], [Fin 0], [Fin (- (1 / sqrt 2))]] (para3\<lparr>Delta := Some (Fin 1)\<rparr>)
   = Inr [[PInf], [NaN], [NInf]]"
  by (simp add: norm_eigenvectors_def eigenvector_norm_def set_column_def column_def interior_def py_sum_def np_pow2_def)

lemma solve_hamiltonian_para3: "solve_hamiltonian lib3 para3 = (Inr ([Fin 1], [[PInf], [NaN], [NInf]]), para3\<lparr>Delta := Some (Fin 1)\<rparr>,
     [Write_potential [Fin 0, Fin (3/2), Fin 3] [Fin 0, Fin 0, Fin 0] ''out'',
      Write_eigenvalues [Fin 1] ''out'',
      Write_eigenvectors [[PInf], [NaN], [NInf]] [Fin 0, Fin (3/2), Fin 3] ''out''])"
proof -
  have e: "eigh_tridiagonal lib3 [Fin 1, Fin 1, Fin 1] [Fin (-1/2), Fin (-1/2)]
             (first_eigenvalue (para3\<lparr>Delta := Some (Fin 1)\<rparr>) - 1, last_eigenvalue (para3\<lparr>Delta := Some (Fin 1)\<rparr>) - 1)
           = Inr ([Fin 1], [[Fin (1 / sqrt 2)], [Fin 0], [Fin (- (1 / sqrt 2))]])"
    by (simp add: lib3_def para3_def)
  have g: "linspace (Fin (xMin (para3\<lparr>Delta := Some (Fin 1)\<rparr>))) (Fin (xMax (para3\<lparr>Delta := Some (Fin 1)\<rparr>))) (nPoints (para3\<lparr>Delta := Some (Fin 1)\<rparr>))
      = Inr [Fin 0, Fin (3/2), Fin 3]"
    by (simp add: para3_def para0_def linspace_fin upt_rec)
  have d: "directory (para3\<lparr>Delta := Some (Fin 1)\<rparr>) = ''out''"
    by (simp add: para3_def para0_def)
  show ?thesis
    unfolding solve_hamiltonian_def write_hamiltonian_para3 prod.case sum.case e norm_eigenvectors_para3 Let_def g d
    by simp
qed

lemma eigenvector_para3: "eigenvector [1, 1, 1] [- 1 / 2, - 1 / 2] 1 [1 / sqrt 2, 0, - (1 / sqrt 2)]"
  by (simp add: eigenvector_def tridiag_row_def atLeast0_lessThan_Suc eval_nat_numeral)

lemma expectation_values_para3_nan: "expectation_values (para3\<lparr>Delta := Some (Fin 1)\<rparr>) [[PInf], [NaN], [NInf]]
     = (Inr (), [Write_expectation_values [NaN] [NaN] ''out''])"
  by (simp add: expectation_values_def Let_def position_moment_def broadcast_def
          column_def interior_def py_sum_def np_pow2_def np_sub_def para3_def para0_def linspace_fin upt_rec)

lemma expectation_values_para3_radicand: "expectation_values (para3\<lparr>Delta := Some (Fin 1)\<rparr>) (fin_array [[0], [2], [0]])
     = (Inr (), [Write_expectation_values [Fin 4] [NaN] ''out''])"
  by (simp add: expectation_values_def Let_def position_moment_def broadcast_def fin_array_def
          column_def interior_def py_sum_def np_pow2_def np_sub_def para3_def para0_def linspace_fin upt_rec)

text \<open>
  C6 fails as stated. With three grid points and a flat potential the Hamiltonian has
  the eigenvalue \<open>1\<close> with the unit eigenvector \<open>(1, 0, -1) / sqrt 2\<close>, whose interior
  quadrature sum is zero. The solver divides it by zero without any check, and the array
  with the entries inf, NaN, -inf reaches the eigenvector sink; the observables stage
  then writes NaN for both \<open>\<langle>x\<rangle>\<close> and the uncertainty. For the column \<open>(0, 2, 0)\<close> the
  radicand is \<open>4 - 16\<close>, and the uncertainty NaN is written.
\<close>

theorem degeneracy_counterexample:
  "eigenvector [1, 1, 1] [- 1 / 2, - 1 / 2] 1 [1 / sqrt 2, 0, - (1 / sqrt 2)] \<and>
   solve_hamiltonian lib3 para3
     = (Inr ([Fin 1], [[PInf], [NaN], [NInf]]), para3\<lparr>Delta := Some (Fin 1)\<rparr>,
        [Write_potential [Fin 0, Fin (3/2), Fin 3] [Fin 0, Fin 0, Fin 0] ''out'',
         Write_eigenvalues [Fin 1] ''out'',
         Write_eigenvectors [[PInf], [NaN], [NInf]] [Fin 0, Fin (3/2), Fin 3] ''out'']) \<and>
   expectation_values (para3\<lparr>Delta := Some (Fin 1)\<rparr>) [[PInf], [NaN], [NInf]]
     = (Inr (), [Write_expectation_values [NaN] [NaN] ''out'']) \<and>
   expectation_values (para3\<lparr>Delta := Some (Fin 1)\<rparr>) (fin_array [[0], [2], [0]])
     = (Inr (), [Write_expectation_values [Fin 4] [NaN] ''out''])"
  using eigenvector_para3 solve_hamiltonian_para3 expectation_values_para3_nan
    expectation_values_para3_radicand
  by blast

section \<open>The eigensolver stage\<close>

text \<open>
  The eigenvalues that \<^verbatim>\<open>solve_hamiltonian\<close> returns are those that the library's
  eigensolver delivers for the Hamiltonian of the builder and the index range
  \<open>(first_eigenvalue - 1, last_eigenvalue - 1)\<close>, unchanged; the eigenvectors are the
  solver's, normalised.
\<close>

lemma write_hamiltonian_keeps_range:
  assumes "write_hamiltonian lib p = (r, p', ws)"
  shows "first_eigenvalue p' = first_eigenvalue p \<and> last_eigenvalue p' = last_eigenvalue p"
  using assms
  by (auto simp: write_hamiltonian_def Let_def split: prod.splits sum.splits)

lemma solve_hamiltonian_forwards:
  assumes "solve_hamiltonian lib p = (Inr (vals, E'), p', ws)"
  shows "\<exists>dg off ws0 E. write_hamiltonian lib p = (Inr (dg, off), p', ws0) \<and>
           eigh_tridiagonal lib dg off (first_eigenvalue p - 1, last_eigenvalue p - 1) = Inr (vals, E) \<and>
           norm_eigenvectors E p' = Inr E'"
proof -
  obtain res p'' ws0 where w: "write_hamiltonian lib p = (res, p'', ws0)"
    by (cases "write_hamiltonian lib p") auto
  have k: "first_eigenvalue p'' = first_eigenvalue p" "last_eigenvalue p'' = last_eigenvalue p"
    using write_hamiltonian_keeps_range[OF w] by simp_all
  from assms k show ?thesis
    unfolding solve_hamiltonian_def w
    by (auto simp: Let_def split: sum.splits prod.splits)
qed

text \<open>
  The matrix of the configuration \<open>para1\<close>: its three eigenpairs, its spectrum, the rank
  of each eigenvalue, and the contract of the eigensolver of \<open>lib1\<close> on it.
\<close>

lemma eigenvectors_diag1:
  "eigenvector diag1 offdiag1 1 [1 / sqrt 3, 1 / sqrt 3, 1 / sqrt 3]"
  "eigenvector diag1 offdiag1 (3 / 2) [1 / sqrt 2, 0, - 1 / sqrt 2]"
  "eigenvector diag1 offdiag1 (5 / 2) [1 / sqrt 6, - 2 / sqrt 6, 1 / sqrt 6]"
  by (simp_all add: diag1_def offdiag1_def eigenvector_def tridiag_row_def atLeast0_lessThan_Suc eval_nat_numeral field_simps)

lemma spectrum_diag1:
  "is_eigenvalue diag1 offdiag1 mu \<longleftrightarrow> mu = 1 \<or> mu = 3 / 2 \<or> mu = 5 / 2"
proof
  assume "is_eigenvalue diag1 offdiag1 mu"
  then obtain v where v: "eigenvector diag1 offdiag1 mu v"
    by (auto simp: is_eigenvalue_def)
  then have len: "length v = 3" by (simp add: eigenvector_def diag1_def)
  then obtain a b c where abc: "v = [a, b, c]"
    by (cases v; cases "tl v"; cases "tl (tl v)") auto
  from v have nz: "a \<noteq> 0 \<or> b \<noteq> 0 \<or> c \<noteq> 0"
    by (auto simp: eigenvector_def diag1_def abc atLeast0_lessThan_Suc eval_nat_numeral less_Suc_eq)
  from v have e0: "3 / 2 * a - b / 2 = mu * a"
    and e1: "- a / 2 + 2 * b - c / 2 = mu * b"
    and e2: "- b / 2 + 3 / 2 * c = mu * c"
    by (simp_all add: eigenvector_def diag1_def offdiag1_def abc tridiag_row_def atLeast0_lessThan_Suc eval_nat_numeral algebra_simps)
  show "mu = 1 \<or> mu = 3 / 2 \<or> mu = 5 / 2"
  proof (rule ccontr)
    assume n: "\<not> (mu = 1 \<or> mu = 3 / 2 \<or> mu = 5 / 2)"
    then have m: "3 / 2 - mu \<noteq> 0" by simp
    have b1: "b = (3 - 2 * mu) * a" using e0 by (simp add: algebra_simps)
    have b2: "b = (3 - 2 * mu) * c" using e2 by (simp add: algebra_simps)
    have ac: "a = c" using b1 b2 m by simp
    have "(4 - 2 * mu) * b = 2 * a" using e1 ac by (simp add: algebra_simps)
    then have "(4 - 2 * mu) * (3 - 2 * mu) * a = 2 * a" using b1 by simp
    then have "((4 - 2 * mu) * (3 - 2 * mu) - 2) * a = 0" by (simp add: algebra_simps)
    moreover have "(4 - 2 * mu) * (3 - 2 * mu) - 2 = 4 * (mu - 1) * (mu - 5 / 2)"
      by (simp add: algebra_simps)
    ultimately have "a = 0" using n by simp
    then show False using nz b1 ac by simp
  qed
next
  assume "mu = 1 \<or> mu = 3 / 2 \<or> mu = 5 / 2"
  then show "is_eigenvalue diag1 offdiag1 mu"
    using eigenvectors_diag1 unfolding is_eigenvalue_def by blast
qed

lemma rank_diag1:
  "nth_smallest_eigenvalue diag1 offdiag1 1 1"
  "nth_smallest_eigenvalue diag1 offdiag1 2 (3 / 2)"
  "nth_smallest_eigenvalue diag1 offdiag1 3 (5 / 2)"
proof -
  have a: "{mu. (mu = 1 \<or> mu = 3 / 2 \<or> mu = 5 / 2) \<and> mu < (1::real)} = {}" by auto
  have b: "{mu. (mu = 1 \<or> mu = 3 / 2 \<or> mu = 5 / 2) \<and> mu < (3 / 2::real)} = {1}" by auto
  have c: "{mu. (mu = 1 \<or> mu = 3 / 2 \<or> mu = 5 / 2) \<and> mu < (5 / 2::real)} = {1, 3 / 2}" by auto
  show "nth_smallest_eigenvalue diag1 offdiag1 1 1"
    "nth_smallest_eigenvalue diag1 offdiag1 2 (3 / 2)"
    "nth_smallest_eigenvalue diag1 offdiag1 3 (5 / 2)"
    unfolding nth_smallest_eigenvalue_def spectrum_diag1 a b c by simp_all
qed

lemma eigh_contract_lib1: "eigh_contract lib1 diag1 offdiag1"
  unfolding eigh_contract_def
proof (intro allI impI)
  fix lo hi :: int
  assume "0 \<le> lo \<and> lo \<le> hi \<and> hi < int (length diag1)"
  then have r: "0 \<le> lo" "lo \<le> hi" "hi < 3" by (simp_all add: diag1_def)
  have l: "length diag1 = Suc (Suc (Suc 0))" by (simp add: diag1_def)
  from r consider "lo = 0 \<and> hi = 0" | "lo = 0 \<and> hi = 1" | "lo = 0 \<and> hi = 2"
    | "lo = 1 \<and> hi = 1" | "lo = 1 \<and> hi = 2" | "lo = 2 \<and> hi = 2"
    by linarith
  then have "eigh_band diag1 offdiag1 (nat lo) (nat hi)
               (take (nat (hi - lo + 1)) (drop (nat lo) [1, 3 / 2, 5 / 2]))
               (map (\<lambda>row. take (nat (hi - lo + 1)) (drop (nat lo) row))
                   [[1 / sqrt 3, 1 / sqrt 2, 1 / sqrt 6],
                    [1 / sqrt 3, 0, - 2 / sqrt 6],
                    [1 / sqrt 3, - 1 / sqrt 2, 1 / sqrt 6]])"
    using rank_diag1 eigenvectors_diag1 l
    by cases (auto simp: eigh_band_def ndarray2_def column_def less_Suc_eq eval_nat_numeral)
  moreover have "eigh_tridiagonal lib1 (map Fin diag1) (map Fin offdiag1) (lo, hi)
      = Inr (map Fin (take (nat (hi - lo + 1)) (drop (nat lo) [1, 3 / 2, 5 / 2])),
                fin_array (map (\<lambda>row. take (nat (hi - lo + 1)) (drop (nat lo) row))
                   [[1 / sqrt 3, 1 / sqrt 2, 1 / sqrt 6],
                    [1 / sqrt 3, 0, - 2 / sqrt 6],
                    [1 / sqrt 3, - 1 / sqrt 2, 1 / sqrt 6]]))"
    using r by (simp add: lib1_def)
  ultimately show "\<exists>w v. eigh_tridiagonal lib1 (map Fin diag1) (map Fin offdiag1) (lo, hi)
        = Inr (map Fin w, fin_array v) \<and> eigh_band diag1 offdiag1 (nat lo) (nat hi) w v"
    by blast
qed

text \<open>
  The Hamiltonian for a potential of finite numbers; an eigenvector of a tridiagonal
  matrix of size four or more whose off-diagonal entries are not zero has a non-zero
  interior component; and a column with a positive interior sum after the normalisation.
\<close>

lemma write_hamiltonian_fin:
  assumes "interpolate_potential lib p = (Inr (map Fin V), ws)" and "0 < mass p"
    and "xMin p < xMax p" and "1 \<le> nPoints p"
    and "\<Delta> = (xMax p - xMin p) / real_of_int (nPoints p)" and "a = 1 / (mass p * \<Delta>\<^sup>2)"
  shows "write_hamiltonian lib p
         = (Inr (map Fin (map (\<lambda>v. a + v) V),
                 map Fin (replicate (nat (nPoints p - 1)) (- (a / 2)))),
            p\<lparr>Delta := Some (Fin \<Delta>)\<rparr>, ws)"
    and "0 < \<Delta>" and "0 < a"
proof -
  show d: "0 < \<Delta>" using assms(3,4,5) by simp
  show a: "0 < a" using d assms(2,6) by simp
  have delta: "np_div (np_abs (Fin (xMax p - xMin p))) (Fin (real_of_int (nPoints p))) = Fin \<Delta>"
    using assms(3,4,5) by simp
  have aa: "np_div (Fin 1) (np_mul (Fin (mass p)) (np_pow2 (Fin \<Delta>))) = Fin a"
    using d assms(2,6) by (simp add: np_pow2_def power2_eq_square)
  have ones: "np_ones (nPoints p - 1) = Inr (replicate (nat (nPoints p - 1)) (Fin 1))"
    using assms(4) by (simp add: np_ones_def)
  have dg: "map (np_add (Fin a)) (map Fin V) = map Fin (map (\<lambda>v. a + v) V)"
    by simp
  have off: "map (np_mul (np_div (np_neg (Fin a)) (Fin 2))) (replicate (nat (nPoints p - 1)) (Fin 1))
           = map Fin (replicate (nat (nPoints p - 1)) (- (a / 2)))"
    by simp
  show "write_hamiltonian lib p
         = (Inr (map Fin (map (\<lambda>v. a + v) V),
                 map Fin (replicate (nat (nPoints p - 1)) (- (a / 2)))),
            p\<lparr>Delta := Some (Fin \<Delta>)\<rparr>, ws)"
    unfolding write_hamiltonian_def assms(1)
    by (simp only: prod.case sum.case Let_def delta aa ones dg off)
qed

lemma eigenvector_interior_nonzero:
  assumes ev: "eigenvector d e lam v" and n: "4 \<le> length d"
    and off: "\<forall>i. Suc i < length d \<longrightarrow> e ! i \<noteq> 0"
  shows "\<exists>r. 1 \<le> r \<and> r < length d - 1 \<and> v ! r \<noteq> 0"
proof (rule ccontr)
  assume "\<not> (\<exists>r. 1 \<le> r \<and> r < length d - 1 \<and> v ! r \<noteq> 0)"
  then have z: "\<And>r. 1 \<le> r \<Longrightarrow> r < length d - 1 \<Longrightarrow> v ! r = 0" by blast
  define m where "m = length d"
  have len: "length v = m" using ev by (simp add: eigenvector_def m_def)
  have rows: "\<And>i. i < m \<Longrightarrow> tridiag_row d e v i = lam * v ! i"
    using ev by (simp add: eigenvector_def m_def)
  have m4: "4 \<le> m" using n by (simp add: m_def)
  have z1: "v ! 1 = 0" "v ! 2 = 0" "v ! (m - 2) = 0" "v ! (m - 3) = 0"
    using z m4 by (simp_all add: m_def[symmetric])
  have "tridiag_row d e v 1 = lam * v ! 1" using rows m4 by simp
  then have "e ! 0 * v ! 0 = 0"
    using z1 m4 by (simp add: tridiag_row_def m_def[symmetric] numeral_2_eq_2)
  moreover have "e ! 0 \<noteq> 0" using off m4 by (simp add: m_def[symmetric])
  ultimately have v0: "v ! 0 = 0" by simp
  have "tridiag_row d e v (m - 2) = lam * v ! (m - 2)" using rows m4 by simp
  moreover have "m - 2 - 1 = m - 3" "Suc (m - 2) = m - 1" using m4 by simp_all
  ultimately have "e ! (m - 2) * v ! (m - 1) = 0"
    using z1 m4 by (simp add: tridiag_row_def m_def[symmetric])
  moreover have "e ! (m - 2) \<noteq> 0" using off m4 by (simp add: m_def[symmetric])
  ultimately have vl: "v ! (m - 1) = 0" by simp
  have "v ! i = 0" if "i < m" for i
  proof -
    have "i = 0 \<or> i = m - 1 \<or> (1 \<le> i \<and> i < m - 1)" using that by auto
    then consider "i = 0" | "i = m - 1" | "1 \<le> i \<and> i < m - 1" by blast
    then show ?thesis using v0 vl z by cases (auto simp: m_def[symmetric])
  qed
  then show False using ev by (auto simp: eigenvector_def len m_def[symmetric])
qed

lemma column_normalized_fin:
  assumes "ndarray2 n m U" and "i < m" and "0 < \<delta> * (\<Sum>r\<leftarrow>interior U. (r ! i)\<^sup>2)"
  shows "column (normalized_upto m (Fin \<delta>) (fin_array U)) i
         = map Fin (map (\<lambda>x. (1 / sqrt (\<delta> * (\<Sum>r\<leftarrow>interior U. (r ! i)\<^sup>2))) * x) (column U i))"
proof -
  have rows: "\<forall>row\<in>set U. i < length row" using assms(1,2) by (auto simp: ndarray2_def)
  define q where "q = \<delta> * (\<Sum>r\<leftarrow>interior U. (r ! i)\<^sup>2)"
  have e: "eigenvector_norm (Fin \<delta>) (fin_array U) i = Fin q"
    unfolding q_def by (rule eigenvector_norm_fin[OF rows])
  have q: "0 < q" using assms(3) by (simp add: q_def)
  have "column (normalized_upto m (Fin \<delta>) (fin_array U)) i
         = map Fin (map (\<lambda>x. (1 / sqrt q) * x) (column U i))"
    using rows assms(2) q
    by (auto simp: column_def normalized_upto_def fin_array_def e[unfolded fin_array_def])
  then show ?thesis by (simp add: q_def)
qed

lemma interpolate_potential_para1:
  "interpolate_potential lib1 para1
   = (Inr (map Fin [1 / 2, 1, 1 / 2]),
      [Write_potential [Fin 0, Fin (3 / 2), Fin 3] [Fin (1 / 2), Fin 1, Fin (1 / 2)] ''out''])"
  by (simp add: interpolate_potential_def para1_def para0_def linspace_fin upt_rec interp1d_def
        call_linear_def searchsorted_def py_index_def np_sub_def)

text \<open>
  C1: for every configuration with \<open>1 \<le> first_eigenvalue \<le> last_eigenvalue \<le> nPoints\<close>,
  positive mass, \<open>xMin < xMax\<close> and a potential of finite numbers, and for library routines
  whose eigensolver meets SciPy's documented contract on the Hamiltonian \<open>(d, e)\<close> of the
  builder, the solver calls the eigensolver with the 0-based index range
  \<open>(first_eigenvalue - 1, last_eigenvalue - 1)\<close> and returns, and passes to the eigenvalue
  sink, the eigensolver's sequence \<open>w\<close> unchanged: \<open>w\<close> is non-decreasing, has length
  \<open>last_eigenvalue - first_eigenvalue + 1\<close>, and its entry \<open>i\<close> (counted from 0) is the
  \<open>(first_eigenvalue + i)\<close>-th smallest eigenvalue of the Hamiltonian. Column \<open>i\<close> of the
  eigensolver's array is an eigenvector of length \<open>nPoints\<close> for \<open>w ! i\<close>; the array the
  solver returns has \<open>nPoints\<close> rows and one column per eigenvalue, and its column \<open>i\<close> is
  again an eigenvector for \<open>w ! i\<close> whenever the interior sum of the eigensolver's column
  is positive, which is the case for every column once \<open>nPoints \<ge> 4\<close>.
\<close>

theorem solve_hamiltonian_band:
  assumes pot: "interpolate_potential lib p = (Inr (map Fin V), ws)"
    and mass: "0 < mass p" and dom: "xMin p < xMax p"
    and idx: "1 \<le> first_eigenvalue p" "first_eigenvalue p \<le> last_eigenvalue p"
             "last_eigenvalue p \<le> nPoints p"
    and delta: "\<Delta> = (xMax p - xMin p) / real_of_int (nPoints p)"
    and a: "a = 1 / (mass p * \<Delta>\<^sup>2)"
    and d: "d = map (\<lambda>v. a + v) V"
    and e: "e = replicate (nat (nPoints p - 1)) (- (a / 2))"
    and contract: "eigh_contract lib d e"
  shows "\<exists>w U E' xaxis.
      write_hamiltonian lib p = (Inr (map Fin d, map Fin e), p\<lparr>Delta := Some (Fin \<Delta>)\<rparr>, ws) \<and>
      eigh_tridiagonal lib (map Fin d) (map Fin e) (first_eigenvalue p - 1, last_eigenvalue p - 1)
        = Inr (map Fin w, fin_array U) \<and>
      solve_hamiltonian lib p
        = (Inr (map Fin w, E'), p\<lparr>Delta := Some (Fin \<Delta>)\<rparr>,
           ws @ [Write_eigenvalues (map Fin w) (directory p),
                 Write_eigenvectors E' xaxis (directory p)]) \<and>
      length w = nat (last_eigenvalue p - first_eigenvalue p + 1) \<and> sorted w \<and>
      (\<forall>i<length w. nth_smallest_eigenvalue d e (nat (first_eigenvalue p) + i) (w ! i)) \<and>
      ndarray2 (nat (nPoints p)) (length w) U \<and>
      (\<forall>i<length w. eigenvector d e (w ! i) (column U i)) \<and>
      ndarray2 (nat (nPoints p)) (length w) E' \<and>
      (\<forall>i<length w. 0 < (\<Sum>r = 1..<nat (nPoints p) - 1. (U ! r ! i)\<^sup>2) \<longrightarrow>
          (\<exists>c. column E' i = map Fin c \<and> length c = nat (nPoints p) \<and> eigenvector d e (w ! i) c)) \<and>
      (4 \<le> nPoints p \<longrightarrow>
          (\<forall>i<length w. \<exists>c. column E' i = map Fin c \<and> length c = nat (nPoints p) \<and>
               eigenvector d e (w ! i) c))"
proof -
  define n where "n = nat (nPoints p)"
  have np: "1 \<le> nPoints p" using idx by simp
  have n: "0 < n" "nPoints p = int n" using np by (simp_all add: n_def)
  have wh: "write_hamiltonian lib p
         = (Inr (map Fin d, map Fin e), p\<lparr>Delta := Some (Fin \<Delta>)\<rparr>, ws)"
    unfolding d e by (rule write_hamiltonian_fin(1)[OF pot mass dom np delta a])
  have dpos: "0 < \<Delta>" by (rule write_hamiltonian_fin(2)[OF pot mass dom np delta a])
  have apos: "0 < a" by (rule write_hamiltonian_fin(3)[OF pot mass dom np delta a])
  have lenV: "length V = n"
    using interpolate_potential_Inr[OF pot] by (simp add: n_def)
  have lend: "length d = n" by (simp add: d lenV)
  have rng: "0 \<le> first_eigenvalue p - 1 \<and> first_eigenvalue p - 1 \<le> last_eigenvalue p - 1
             \<and> last_eigenvalue p - 1 < int (length d)"
    using idx n by (simp add: lend)
  from contract[unfolded eigh_contract_def, rule_format, OF rng]
  obtain w U where call: "eigh_tridiagonal lib (map Fin d) (map Fin e)
        (first_eigenvalue p - 1, last_eigenvalue p - 1) = Inr (map Fin w, fin_array U)"
    and band: "eigh_band d e (nat (first_eigenvalue p - 1)) (nat (last_eigenvalue p - 1)) w U"
    by blast
  define m where "m = length w"
  have "length w = nat (last_eigenvalue p - 1) - nat (first_eigenvalue p - 1) + 1"
    using band unfolding eigh_band_def by blast
  then have lw: "length w = nat (last_eigenvalue p - first_eigenvalue p + 1)"
    using idx by simp
  have srt: "sorted w" using band unfolding eigh_band_def by blast
  have rank: "\<forall>i<length w. nth_smallest_eigenvalue d e (nat (first_eigenvalue p) + i) (w ! i)"
  proof (intro allI impI)
    fix i assume "i < length w"
    then have "nth_smallest_eigenvalue d e (nat (first_eigenvalue p - 1) + i + 1) (w ! i)"
      using band unfolding eigh_band_def by blast
    moreover have "nat (first_eigenvalue p - 1) + i + 1 = nat (first_eigenvalue p) + i"
      using idx by simp
    ultimately show "nth_smallest_eigenvalue d e (nat (first_eigenvalue p) + i) (w ! i)"
      by (simp only:)
  qed
  have shapeU: "ndarray2 n m U" using band unfolding eigh_band_def lend m_def by blast
  have evU: "\<forall>i<m. eigenvector d e (w ! i) (column U i)"
    using band unfolding eigh_band_def m_def by blast
  define E' where "E' = normalized_upto m (Fin \<Delta>) (fin_array U)"
  have nrm: "norm_eigenvectors (fin_array U) (p\<lparr>Delta := Some (Fin \<Delta>)\<rparr>) = Inr E'"
    unfolding E'_def
    by (rule norm_eigenvectors_general[OF ndarray2_fin_array[OF shapeU] n(1)]) simp
  have shapeE: "ndarray2 n m E'"
    unfolding E'_def by (rule normalized_upto_shape[OF ndarray2_fin_array[OF shapeU]])
  from linspace_cases[of "nPoints p" "Fin (xMin p)" "Fin (xMax p)"] np
  obtain xaxis where xaxis: "linspace (Fin (xMin p)) (Fin (xMax p)) (nPoints p) = Inr xaxis"
    by auto
  have solve: "solve_hamiltonian lib p
        = (Inr (map Fin w, E'), p\<lparr>Delta := Some (Fin \<Delta>)\<rparr>,
           ws @ [Write_eigenvalues (map Fin w) (directory p),
                 Write_eigenvectors E' xaxis (directory p)])"
    by (simp add: solve_hamiltonian_def wh call nrm xaxis)
  have col: "\<exists>c. column E' i = map Fin c \<and> length c = n \<and> eigenvector d e (w ! i) c"
    if i: "i < m" and pos: "0 < (\<Sum>r = 1..<n - 1. (U ! r ! i)\<^sup>2)" for i
  proof -
    define q where "q = \<Delta> * (\<Sum>r\<leftarrow>interior U. (r ! i)\<^sup>2)"
    have q: "0 < q"
      unfolding q_def sum_interior_rows[OF shapeU] using dpos pos by simp
    have c: "column E' i = map Fin (map (\<lambda>x. (1 / sqrt q) * x) (column U i))"
      unfolding E'_def q_def
      by (rule column_normalized_fin[OF shapeU i q[unfolded q_def]])
    have "eigenvector d e (w ! i) (map (\<lambda>x. (1 / sqrt q) * x) (column U i))"
      using evU i q by (intro eigenvector_scale) simp_all
    moreover have "length (map (\<lambda>x. (1 / sqrt q) * x) (column U i)) = n"
      using shapeU by (simp add: column_def ndarray2_def)
    ultimately show ?thesis using c by blast
  qed
  have all: "\<exists>c. column E' i = map Fin c \<and> length c = n \<and> eigenvector d e (w ! i) c"
    if big: "4 \<le> nPoints p" and i: "i < m" for i
  proof -
    have n4: "4 \<le> length d" using big n by (simp add: lend)
    have off: "\<forall>k. Suc k < length d \<longrightarrow> e ! k \<noteq> 0"
      using apos n by (auto simp: e lend)
    from eigenvector_interior_nonzero[OF evU[rule_format, OF i] n4 off]
    obtain r where r: "1 \<le> r" "r < n - 1" "column U i ! r \<noteq> 0" by (auto simp: lend)
    have "column U i ! r = U ! r ! i" using r shapeU by (simp add: column_def ndarray2_def)
    then have "0 < (U ! r ! i)\<^sup>2" using r by simp
    moreover have "(U ! r ! i)\<^sup>2 \<le> (\<Sum>r = 1..<n - 1. (U ! r ! i)\<^sup>2)"
      using r by (intro member_le_sum) auto
    ultimately have "0 < (\<Sum>r = 1..<n - 1. (U ! r ! i)\<^sup>2)" by linarith
    then show ?thesis by (rule col[OF i])
  qed
  have col': "\<forall>i<length w. 0 < (\<Sum>r = 1..<n - 1. (U ! r ! i)\<^sup>2) \<longrightarrow>
          (\<exists>c. column E' i = map Fin c \<and> length c = n \<and> eigenvector d e (w ! i) c)"
    using col unfolding m_def by blast
  have all': "4 \<le> nPoints p \<longrightarrow>
          (\<forall>i<length w. \<exists>c. column E' i = map Fin c \<and> length c = n \<and>
               eigenvector d e (w ! i) c)"
    using all unfolding m_def by blast
  have shapeE': "ndarray2 n (length w) E'" using shapeE unfolding m_def .
  have shapeU': "ndarray2 n (length w) U" using shapeU unfolding m_def .
  have evU': "\<forall>i<length w. eigenvector d e (w ! i) (column U i)" using evU unfolding m_def .
  show ?thesis
    unfolding n_def[symmetric]
    apply (rule exI[of _ w])
    apply (rule exI[of _ U])
    apply (rule exI[of _ E'])
    apply (rule exI[of _ xaxis])
    using wh call solve lw srt rank shapeU' evU' shapeE' col' all' by (intro conjI)
qed

theorem solve_hamiltonian_band_witness:
  "\<exists>w U E' xaxis.
      (write_hamiltonian lib1 para1
        = (Inr (map Fin diag1, map Fin offdiag1), para1\<lparr>Delta := Some (Fin 1)\<rparr>,
           [Write_potential [Fin 0, Fin (3 / 2), Fin 3] [Fin (1 / 2), Fin 1, Fin (1 / 2)] ''out'']) \<and>
      eigh_tridiagonal lib1 (map Fin diag1) (map Fin offdiag1)
          (first_eigenvalue para1 - 1, last_eigenvalue para1 - 1)
        = Inr (map Fin w, fin_array U) \<and>
      solve_hamiltonian lib1 para1
        = (Inr (map Fin w, E'), para1\<lparr>Delta := Some (Fin 1)\<rparr>,
           [Write_potential [Fin 0, Fin (3 / 2), Fin 3] [Fin (1 / 2), Fin 1, Fin (1 / 2)] ''out'']
           @ [Write_eigenvalues (map Fin w) (directory para1),
              Write_eigenvectors E' xaxis (directory para1)]) \<and>
      length w = nat (last_eigenvalue para1 - first_eigenvalue para1 + 1) \<and> sorted w \<and>
      (\<forall>i<length w. nth_smallest_eigenvalue diag1 offdiag1 (nat (first_eigenvalue para1) + i) (w ! i)) \<and>
      ndarray2 (nat (nPoints para1)) (length w) U \<and>
      (\<forall>i<length w. eigenvector diag1 offdiag1 (w ! i) (column U i)) \<and>
      ndarray2 (nat (nPoints para1)) (length w) E' \<and>
      (\<forall>i<length w. 0 < (\<Sum>r = 1..<nat (nPoints para1) - 1. (U ! r ! i)\<^sup>2) \<longrightarrow>
          (\<exists>c. column E' i = map Fin c \<and> length c = nat (nPoints para1) \<and>
               eigenvector diag1 offdiag1 (w ! i) c)) \<and>
      (4 \<le> nPoints para1 \<longrightarrow>
          (\<forall>i<length w. \<exists>c. column E' i = map Fin c \<and> length c = nat (nPoints para1) \<and>
               eigenvector diag1 offdiag1 (w ! i) c)))
      \<and> w = [3 / 2, 5 / 2]"
proof -
  have mass: "0 < mass para1" and dom: "xMin para1 < xMax para1"
    and idx: "1 \<le> first_eigenvalue para1" "first_eigenvalue para1 \<le> last_eigenvalue para1"
      "last_eigenvalue para1 \<le> nPoints para1"
    and delta: "1 = (xMax para1 - xMin para1) / real_of_int (nPoints para1)"
    and a: "1 = 1 / (mass para1 * 1\<^sup>2)"
    and d: "diag1 = map (\<lambda>v. 1 + v) [1 / 2, 1, 1 / 2]"
    and e: "offdiag1 = replicate (nat (nPoints para1 - 1)) (- (1 / 2))"
    by (simp_all add: para1_def para0_def diag1_def offdiag1_def numeral_2_eq_2)
  from solve_hamiltonian_band[OF interpolate_potential_para1 mass dom idx delta a d e eigh_contract_lib1]
  obtain w U E' xaxis where
    r: "write_hamiltonian lib1 para1
        = (Inr (map Fin diag1, map Fin offdiag1), para1\<lparr>Delta := Some (Fin 1)\<rparr>,
           [Write_potential [Fin 0, Fin (3 / 2), Fin 3] [Fin (1 / 2), Fin 1, Fin (1 / 2)] ''out'']) \<and>
      eigh_tridiagonal lib1 (map Fin diag1) (map Fin offdiag1)
          (first_eigenvalue para1 - 1, last_eigenvalue para1 - 1)
        = Inr (map Fin w, fin_array U) \<and>
      solve_hamiltonian lib1 para1
        = (Inr (map Fin w, E'), para1\<lparr>Delta := Some (Fin 1)\<rparr>,
           [Write_potential [Fin 0, Fin (3 / 2), Fin 3] [Fin (1 / 2), Fin 1, Fin (1 / 2)] ''out'']
           @ [Write_eigenvalues (map Fin w) (directory para1),
              Write_eigenvectors E' xaxis (directory para1)]) \<and>
      length w = nat (last_eigenvalue para1 - first_eigenvalue para1 + 1) \<and> sorted w \<and>
      (\<forall>i<length w. nth_smallest_eigenvalue diag1 offdiag1 (nat (first_eigenvalue para1) + i) (w ! i)) \<and>
      ndarray2 (nat (nPoints para1)) (length w) U \<and>
      (\<forall>i<length w. eigenvector diag1 offdiag1 (w ! i) (column U i)) \<and>
      ndarray2 (nat (nPoints para1)) (length w) E' \<and>
      (\<forall>i<length w. 0 < (\<Sum>r = 1..<nat (nPoints para1) - 1. (U ! r ! i)\<^sup>2) \<longrightarrow>
          (\<exists>c. column E' i = map Fin c \<and> length c = nat (nPoints para1) \<and>
               eigenvector diag1 offdiag1 (w ! i) c)) \<and>
      (4 \<le> nPoints para1 \<longrightarrow>
          (\<forall>i<length w. \<exists>c. column E' i = map Fin c \<and> length c = nat (nPoints para1) \<and>
               eigenvector diag1 offdiag1 (w ! i) c))"
    by blast
  then have "eigh_tridiagonal lib1 (map Fin diag1) (map Fin offdiag1)
          (first_eigenvalue para1 - 1, last_eigenvalue para1 - 1)
        = Inr (map Fin w, fin_array U)" by blast
  moreover have "eigh_tridiagonal lib1 (map Fin diag1) (map Fin offdiag1)
          (first_eigenvalue para1 - 1, last_eigenvalue para1 - 1)
        = Inr (map Fin [3 / 2, 5 / 2],
               fin_array [[1 / sqrt 2, 1 / sqrt 6], [0, - 2 / sqrt 6], [- 1 / sqrt 2, 1 / sqrt 6]])"
    by (simp add: lib1_def para1_def numeral_2_eq_2 fin_array_def)
  ultimately have "map Fin w = map Fin [3 / 2, 5 / 2]" by simp
  then have "w = [3 / 2, 5 / 2]"
    by (simp add: inj_map_eq_map inj_def del: list.map)
  with r show ?thesis by blast
qed

section \<open>The grid spacing and the stored spacing\<close>

text \<open>
  C3 fails as stated. In the configuration \<open>para0\<close>, with \<open>xMax > xMin\<close> and four grid
  points on \<open>[0, 4]\<close>, consecutive grid points are \<open>4/3\<close> apart, while the value \<open>\<Delta>\<close> that
  the Hamiltonian builder computes and stores is \<open>(4 - 0) / 4 = 1\<close>.
\<close>

theorem grid_spacing_counterexample:
  "xMin para0 < xMax para0 \<and> 3 \<le> nPoints para0 \<and>
   linspace (Fin (xMin para0)) (Fin (xMax para0)) (nPoints para0)
     = Inr [Fin 0, Fin (4/3), Fin (8/3), Fin 4] \<and>
   (xMax para0 - xMin para0) / real_of_int (nPoints para0) = 1 \<and>
   fst (snd (write_hamiltonian lib0 para0)) = para0\<lparr>Delta := Some (Fin 1)\<rparr> \<and>
   (4/3 - 0 \<noteq> (1::real))"
  using linspace_para0 by (simp add: write_hamiltonian_para0) (simp add: para0_def)

text \<open>
  C3, amended: for every configuration with \<open>xMax > xMin\<close> and \<open>nPoints \<ge> 3\<close> the grid is
  the increasing sequence of \<open>nPoints\<close> coordinates from \<open>xMin\<close> to \<open>xMax\<close> whose
  consecutive points are \<open>h = (xMax - xMin) / (nPoints - 1)\<close> apart. The value
  \<open>\<Delta> = (xMax - xMin) / nPoints\<close>, which is smaller than \<open>h\<close>, is computed once, by the
  Hamiltonian builder, which uses it for the diagonal and stores it in the
  configuration; the solver normalises with the configuration the builder left, and the
  normaliser and the observables stage both compute with the stored \<open>\<Delta>\<close>.
\<close>

theorem grid_and_delta:
  assumes "xMin p < xMax p" and "3 \<le> nPoints p"
  shows "\<exists>g h \<Delta>.
     h = (xMax p - xMin p) / (real_of_int (nPoints p) - 1) \<and>
     \<Delta> = (xMax p - xMin p) / real_of_int (nPoints p) \<and> 0 < \<Delta> \<and> \<Delta> < h \<and>
     linspace (Fin (xMin p)) (Fin (xMax p)) (nPoints p) = Inr (map Fin g) \<and>
     length g = nat (nPoints p) \<and> g ! 0 = xMin p \<and> last g = xMax p \<and>
     (\<forall>i. Suc i < length g \<longrightarrow> g ! Suc i - g ! i = h) \<and>
     (\<forall>lib r p' ws. write_hamiltonian lib p = (Inr r, p', ws) \<longrightarrow>
         p' = p\<lparr>Delta := Some (Fin \<Delta>)\<rparr> \<and>
         (\<exists>V. interpolate_potential lib p = (Inr V, ws) \<and>
              fst r = map (np_add (np_div (Fin 1) (Fin (mass p * \<Delta>\<^sup>2)))) V)) \<and>
     (\<forall>lib r p' ws. solve_hamiltonian lib p = (Inr r, p', ws) \<longrightarrow>
         p' = p\<lparr>Delta := Some (Fin \<Delta>)\<rparr> \<and>
         (\<exists>E. norm_eigenvectors E (p\<lparr>Delta := Some (Fin \<Delta>)\<rparr>) = Inr (snd r))) \<and>
     (\<forall>E ii iis. norm_loop (ii # iis) E (p\<lparr>Delta := Some (Fin \<Delta>)\<rparr>)
         = norm_loop iis (set_column E ii
              (map (\<lambda>v. np_div v (np_sqrt (eigenvector_norm (Fin \<Delta>) E ii))) (column E ii)))
              (p\<lparr>Delta := Some (Fin \<Delta>)\<rparr>)) \<and>
     (\<forall>row0 rows. \<exists>x_i.
         linspace (Fin (xMin p + \<Delta>)) (Fin (xMax p - \<Delta>)) (nPoints p - 2) = Inr x_i \<and>
         expectation_values (p\<lparr>Delta := Some (Fin \<Delta>)\<rparr>) (row0 # rows)
         = (case expectation_loop (Fin \<Delta>) x_i (row0 # rows) [0..<length row0]
                  (replicate (length row0) (Fin 0), replicate (length row0) (Fin 0),
                   replicate (length row0) (Fin 0)) of
              Inl e \<Rightarrow> (Inl e, [])
            | Inr (expval, expval_squared, uncertainty) \<Rightarrow>
                (Inr (), [Write_expectation_values expval uncertainty (directory p)])))"
proof -
  define n where "n = nat (nPoints p)"
  have n: "3 \<le> n" "nPoints p = int n" using assms(2) by (simp_all add: n_def)
  define h where "h = (xMax p - xMin p) / (real_of_int (nPoints p) - 1)"
  define \<Delta> where "\<Delta> = (xMax p - xMin p) / real_of_int (nPoints p)"
  define g where "g = map (\<lambda>i. xMin p + real i * h) [0..<n]"
  have d: "0 < \<Delta>" using assms n by (simp add: \<Delta>_def)
  have dh: "\<Delta> < h"
    unfolding \<Delta>_def h_def using assms n
    by (intro divide_strict_left_mono) (simp_all)
  have grid: "linspace (Fin (xMin p)) (Fin (xMax p)) (nPoints p) = Inr (map Fin g)"
    using linspace_fin[of "nPoints p" "xMin p" "xMax p"] assms(2)
    by (simp add: g_def h_def n_def o_def)
  have len: "length g = nat (nPoints p)" by (simp add: g_def n_def)
  have g0: "g ! 0 = xMin p" using n by (simp add: g_def)
  have "last g = g ! (n - 1)" using n by (simp add: last_conv_nth g_def)
  also have "\<dots> = xMin p + real (n - 1) * h" using n by (simp add: g_def)
  also have "real (n - 1) * h = xMax p - xMin p"
    using n by (simp add: h_def of_nat_diff)
  finally have gl: "last g = xMax p" by simp
  have step: "\<forall>i. Suc i < length g \<longrightarrow> g ! Suc i - g ! i = h"
    by (simp add: g_def algebra_simps)
  have delta: "np_div (np_abs (Fin (xMax p - xMin p))) (Fin (real_of_int (nPoints p))) = Fin \<Delta>"
    using assms n by (simp add: \<Delta>_def)
  have aa: "np_div (Fin 1) (np_mul (Fin (mass p)) (np_pow2 (Fin \<Delta>)))
            = np_div (Fin 1) (Fin (mass p * \<Delta>\<^sup>2))"
    by (simp add: np_pow2_def power2_eq_square)
  have wh: "p' = p\<lparr>Delta := Some (Fin \<Delta>)\<rparr> \<and>
         (\<exists>V. interpolate_potential lib p = (Inr V, ws) \<and>
              fst r = map (np_add (np_div (Fin 1) (Fin (mass p * \<Delta>\<^sup>2)))) V)"
    if "write_hamiltonian lib p = (Inr r, p', ws)" for lib r p' ws
    using that unfolding write_hamiltonian_def Let_def delta aa
    by (auto split: prod.splits sum.splits)
  have sh: "p' = p\<lparr>Delta := Some (Fin \<Delta>)\<rparr> \<and>
         (\<exists>E. norm_eigenvectors E (p\<lparr>Delta := Some (Fin \<Delta>)\<rparr>) = Inr (snd r))"
    if s: "solve_hamiltonian lib p = (Inr r, p', ws)" for lib r p' ws
  proof -
    obtain res p'' ws0 where w: "write_hamiltonian lib p = (res, p'', ws0)"
      by (cases "write_hamiltonian lib p") auto
    from s w obtain dg off where res: "res = Inr (dg, off)"
      by (cases res) (auto simp: solve_hamiltonian_def)
    have p'': "p'' = p\<lparr>Delta := Some (Fin \<Delta>)\<rparr>"
      using wh[OF w[unfolded res]] by simp
    from s show ?thesis
      unfolding solve_hamiltonian_def w res p''
      by (auto simp: Let_def split: sum.splits prod.splits)
  qed
  have nl: "\<forall>E ii iis. norm_loop (ii # iis) E (p\<lparr>Delta := Some (Fin \<Delta>)\<rparr>)
         = norm_loop iis (set_column E ii
              (map (\<lambda>v. np_div v (np_sqrt (eigenvector_norm (Fin \<Delta>) E ii))) (column E ii)))
              (p\<lparr>Delta := Some (Fin \<Delta>)\<rparr>)"
    by simp
  from linspace_cases[of "nPoints p - 2" "Fin (xMin p + \<Delta>)" "Fin (xMax p - \<Delta>)"] assms(2)
  obtain x_i where x: "linspace (Fin (xMin p + \<Delta>)) (Fin (xMax p - \<Delta>)) (nPoints p - 2) = Inr x_i"
    by auto
  have ex: "\<forall>row0 rows. \<exists>x_i.
         linspace (Fin (xMin p + \<Delta>)) (Fin (xMax p - \<Delta>)) (nPoints p - 2) = Inr x_i \<and>
         expectation_values (p\<lparr>Delta := Some (Fin \<Delta>)\<rparr>) (row0 # rows)
         = (case expectation_loop (Fin \<Delta>) x_i (row0 # rows) [0..<length row0]
                  (replicate (length row0) (Fin 0), replicate (length row0) (Fin 0),
                   replicate (length row0) (Fin 0)) of
              Inl e \<Rightarrow> (Inl e, [])
            | Inr (expval, expval_squared, uncertainty) \<Rightarrow>
                (Inr (), [Write_expectation_values expval uncertainty (directory p)]))"
    using x by (simp add: expectation_values_def Let_def np_sub_def split: sum.splits prod.splits)
  from h_def \<Delta>_def d dh grid len g0 gl step wh sh nl ex show ?thesis by blast
qed

theorem grid_and_delta_witness:
  "\<exists>g h \<Delta>.
     h = (xMax para0 - xMin para0) / (real_of_int (nPoints para0) - 1) \<and>
     \<Delta> = (xMax para0 - xMin para0) / real_of_int (nPoints para0) \<and> 0 < \<Delta> \<and> \<Delta> < h \<and>
     linspace (Fin (xMin para0)) (Fin (xMax para0)) (nPoints para0) = Inr (map Fin g) \<and>
     length g = nat (nPoints para0) \<and> g ! 0 = xMin para0 \<and> last g = xMax para0 \<and>
     (\<forall>i. Suc i < length g \<longrightarrow> g ! Suc i - g ! i = h) \<and>
     (\<forall>lib r para0' ws. write_hamiltonian lib para0 = (Inr r, para0', ws) \<longrightarrow>
         para0' = para0\<lparr>Delta := Some (Fin \<Delta>)\<rparr> \<and>
         (\<exists>V. interpolate_potential lib para0 = (Inr V, ws) \<and>
              fst r = map (np_add (np_div (Fin 1) (Fin (mass para0 * \<Delta>\<^sup>2)))) V)) \<and>
     (\<forall>lib r para0' ws. solve_hamiltonian lib para0 = (Inr r, para0', ws) \<longrightarrow>
         para0' = para0\<lparr>Delta := Some (Fin \<Delta>)\<rparr> \<and>
         (\<exists>E. norm_eigenvectors E (para0\<lparr>Delta := Some (Fin \<Delta>)\<rparr>) = Inr (snd r))) \<and>
     (\<forall>E ii iis. norm_loop (ii # iis) E (para0\<lparr>Delta := Some (Fin \<Delta>)\<rparr>)
         = norm_loop iis (set_column E ii
              (map (\<lambda>v. np_div v (np_sqrt (eigenvector_norm (Fin \<Delta>) E ii))) (column E ii)))
              (para0\<lparr>Delta := Some (Fin \<Delta>)\<rparr>)) \<and>
     (\<forall>row0 rows. \<exists>x_i.
         linspace (Fin (xMin para0 + \<Delta>)) (Fin (xMax para0 - \<Delta>)) (nPoints para0 - 2) = Inr x_i \<and>
         expectation_values (para0\<lparr>Delta := Some (Fin \<Delta>)\<rparr>) (row0 # rows)
         = (case expectation_loop (Fin \<Delta>) x_i (row0 # rows) [0..<length row0]
                  (replicate (length row0) (Fin 0), replicate (length row0) (Fin 0),
                   replicate (length row0) (Fin 0)) of
              Inl e \<Rightarrow> (Inl e, [])
            | Inr (expval, expval_squared, uncertainty) \<Rightarrow>
                (Inr (), [Write_expectation_values expval uncertainty (directory para0)])))"
proof -
  have a: "xMin para0 < xMax para0" and b: "3 \<le> nPoints para0"
    by (simp_all add: para0_def)
  show ?thesis
    by (rule grid_and_delta[OF a b])
qed

section \<open>Linear interpolation\<close>

lemma sorted_hd_Min_real:
  assumes "sorted xs" "xs \<noteq> []"
  shows "hd xs = Min (set xs)" "last xs = Max (set xs)"
proof -
  have "\<forall>i<length xs. xs ! 0 \<le> xs ! i"
    using assms by (simp add: sorted_iff_nth_mono)
  then have "\<forall>y\<in>set xs. hd xs \<le> y"
    using assms(2) by (auto simp: in_set_conv_nth hd_conv_nth)
  then show "hd xs = Min (set xs)"
    using assms(2) by (intro Min_eqI[symmetric]) auto
  have "\<forall>i<length xs. xs ! i \<le> xs ! (length xs - 1)"
    using assms by (simp add: sorted_iff_nth_mono)
  then have "\<forall>y\<in>set xs. y \<le> last xs"
    using assms(2) by (auto simp: in_set_conv_nth last_conv_nth)
  then show "last xs = Max (set xs)"
    using assms(2) by (intro Max_eqI[symmetric]) auto
qed

lemma interp1d_sorted:
  assumes "length xs = length ys" "1 \<le> length xs" "sorted xs"
  shows "interp1d xs ys = Inr (\<lambda>x_new.
             if (\<exists>v \<in> set x_new. np_less v (Fin (hd xs))) \<or> (\<exists>v \<in> set x_new. np_less (Fin (last xs)) v)
             then Inl ValueError
             else Inr (map (call_linear xs ys) x_new))"
proof -
  have "sort_key fst (zip xs ys) = zip xs ys"
    using assms by (intro sort_key_id_if_sorted) simp
  moreover have "map fst (zip xs ys) = xs" "map snd (zip xs ys) = ys"
    using assms(1) by simp_all
  ultimately show ?thesis
    using assms by (auto simp: interp1d_def Let_def cong: if_cong)
qed

lemma call_linear_in_range:
  assumes len: "length xs = length ys" "2 \<le> length xs" and srt: "sorted_wrt (<) xs"
    and lo: "hd xs \<le> x" and hi: "x \<le> last xs"
  shows "\<exists>j. Suc j < length xs \<and> xs ! j \<le> x \<and> x \<le> xs ! Suc j \<and>
             call_linear xs ys (Fin x) = Fin (segment_value xs ys j x)"
proof -
  define n where "n = length xs"
  define c where "c = length (takeWhile (\<lambda>v. v < x) xs)"
  have n: "2 \<le> n" using len by (simp add: n_def)
  have ne: "xs \<noteq> []" using len by auto
  have cn: "c \<le> n" by (simp add: c_def n_def length_takeWhile_le)
  have before: "xs ! k < x" if "k < c" for k
  proof -
    have "takeWhile (\<lambda>v. v < x) xs ! k \<in> set (takeWhile (\<lambda>v. v < x) xs)"
      using that by (simp add: c_def)
    then have "takeWhile (\<lambda>v. v < x) xs ! k < x" by (auto dest: set_takeWhileD)
    then show ?thesis using that by (simp add: c_def takeWhile_nth)
  qed
  have at: "x \<le> xs ! c" if "c < n"
    using nth_length_takeWhile[of "\<lambda>v. v < x" xs] that by (simp add: c_def n_def)
  have c1: "c \<le> n - 1"
  proof (rule ccontr)
    assume "\<not> c \<le> n - 1"
    then have "n - 1 < c" by simp
    then have "xs ! (n - 1) < x" by (rule before)
    then show False using hi ne by (simp add: last_conv_nth n_def)
  qed
  define j where "j = max c 1 - 1"
  have j: "Suc j < n" using c1 n by (simp add: j_def)
  have idx: "min (max (int c) 1) (int n - 1) = int (Suc j)"
    using c1 n by (auto simp: j_def)
  have strict: "xs ! j < xs ! Suc j"
    using srt j by (simp add: sorted_wrt_iff_nth_less n_def)
  have lower: "xs ! j \<le> x"
  proof (cases "c = 0")
    case True
    then show ?thesis using lo ne by (simp add: j_def hd_conv_nth)
  next
    case False
    then have "j < c" by (simp add: j_def)
    then show ?thesis using before by fastforce
  qed
  have upper: "x \<le> xs ! Suc j"
  proof (cases "c = 0")
    case True
    then have "x \<le> xs ! 0" using at n by simp
    moreover have "j = 0" using True by (simp add: j_def)
    ultimately show ?thesis using strict lower by simp
  next
    case False
    then have "Suc j = c" by (simp add: j_def)
    then show ?thesis using at j by simp
  qed
  have suc: "nat (1 + int j) = Suc j" by simp
  have "call_linear xs ys (Fin x) = Fin (segment_value xs ys j x)"
    using strict
    by (simp add: suc call_linear_def searchsorted_def c_def[symmetric] n_def[symmetric] idx Let_def
          py_index_def segment_value_def np_sub_def)
  with j lower upper show ?thesis unfolding n_def by blast
qed

lemma call_linear_control_point:
  assumes len: "length xs = length ys" "2 \<le> length xs" and srt: "sorted_wrt (<) xs"
    and i: "i < length xs"
  shows "call_linear xs ys (Fin (xs ! i)) = Fin (ys ! i)"
proof -
  have s: "sorted xs" using srt by (simp add: strict_sorted_iff)
  have ne: "xs \<noteq> []" using len by auto
  have "hd xs \<le> xs ! i" "xs ! i \<le> last xs"
    using s i ne by (simp_all add: hd_conv_nth last_conv_nth sorted_iff_nth_mono)
  from call_linear_in_range[OF len srt this]
  obtain j where j: "Suc j < length xs" "xs ! j \<le> xs ! i" "xs ! i \<le> xs ! Suc j"
    and v: "call_linear xs ys (Fin (xs ! i)) = Fin (segment_value xs ys j (xs ! i))"
    by blast
  have mono: "\<And>a b. a < b \<Longrightarrow> b < length xs \<Longrightarrow> xs ! a < xs ! b"
    using srt by (simp add: sorted_wrt_iff_nth_less)
  have "i = j \<or> i = Suc j"
  proof (rule ccontr)
    assume "\<not> (i = j \<or> i = Suc j)"
    then consider "i < j" | "Suc j < i" by linarith
    then show False
    proof cases
      case 1
      then have "xs ! i < xs ! j" using j(1) by (intro mono) simp_all
      then show False using j(2) by simp
    next
      case 2
      then have "xs ! Suc j < xs ! i" using i by (intro mono) simp_all
      then show False using j(3) by simp
    qed
  qed
  moreover have "xs ! j \<noteq> xs ! Suc j" using mono[of j "Suc j"] j(1) by simp
  ultimately show ?thesis
    unfolding v by (auto simp: segment_value_def)
qed

text \<open>
  C7: with the linear method and control points \<open>(x\<^sub>i, y\<^sub>i)\<close>, at least two of them,
  \<open>x\<close> strictly increasing, the interpolant evaluated at a control point \<open>x\<^sub>i\<close> returns
  exactly \<open>y\<^sub>i\<close>. The interpolation stage fails if and only if some grid point lies
  outside \<open>[min x\<^sub>i, max x\<^sub>i]\<close>, and then with the ValueError that SciPy raises for a
  point outside the interpolation range (the spec's DomainError). When it does not
  fail, every grid point lies between two consecutive control points and its value is
  the value of the straight line through them: nothing is extrapolated.
\<close>

theorem linear_interpolation:
  assumes "interpolation_type p = ''linear''"
    and "interpolation_points_x p = xs" and "interpolation_points_y p = ys"
    and "length xs = length ys" and "2 \<le> length xs" and "sorted_wrt (<) xs"
    and "0 \<le> nPoints p"
  shows "\<exists>f g. interp1d xs ys = Inr f \<and>
     (\<forall>i<length xs. f [Fin (xs ! i)] = Inr [Fin (ys ! i)]) \<and>
     linspace (Fin (xMin p)) (Fin (xMax p)) (nPoints p) = Inr (map Fin g) \<and>
     ((\<exists>e. fst (interpolate_potential lib p) = Inl e)
        \<longleftrightarrow> (\<exists>x\<in>set g. x < Min (set xs) \<or> Max (set xs) < x)) \<and>
     ((\<exists>x\<in>set g. x < Min (set xs) \<or> Max (set xs) < x)
        \<longrightarrow> interpolate_potential lib p = (Inl ValueError, [])) \<and>
     ((\<forall>x\<in>set g. Min (set xs) \<le> x \<and> x \<le> Max (set xs)) \<longrightarrow>
        (\<exists>V. interpolate_potential lib p
               = (Inr (map Fin V), [Write_potential (map Fin g) (map Fin V) (directory p)]) \<and>
             length V = length g \<and>
             (\<forall>k<length g. \<exists>j. Suc j < length xs \<and> xs ! j \<le> g ! k \<and> g ! k \<le> xs ! Suc j \<and>
                  V ! k = segment_value xs ys j (g ! k))))"
proof -
  define f where "f = (\<lambda>x_new.
             if (\<exists>v \<in> set x_new. np_less v (Fin (hd xs))) \<or> (\<exists>v \<in> set x_new. np_less (Fin (last xs)) v)
             then Inl ValueError
             else Inr (map (call_linear xs ys) x_new))"
  define g where "g = map (\<lambda>i. xMin p + real i * ((xMax p - xMin p) / real_of_int (nPoints p - 1)))
                        [0..<nat (nPoints p)]"
  have s: "sorted xs" using assms(6) by (simp add: strict_sorted_iff)
  have ne: "xs \<noteq> []" using assms(5) by auto
  have mm: "hd xs = Min (set xs)" "last xs = Max (set xs)"
    using sorted_hd_Min_real[OF s ne] by simp_all
  have f: "interp1d xs ys = Inr f"
    unfolding f_def using assms(4,5) s by (intro interp1d_sorted) simp_all
  have ctrl: "\<forall>i<length xs. f [Fin (xs ! i)] = Inr [Fin (ys ! i)]"
  proof (intro allI impI)
    fix i assume i: "i < length xs"
    have "hd xs \<le> xs ! i" "xs ! i \<le> last xs"
      using s i ne by (simp_all add: hd_conv_nth last_conv_nth sorted_iff_nth_mono)
    then show "f [Fin (xs ! i)] = Inr [Fin (ys ! i)]"
      by (simp add: f_def call_linear_control_point[OF assms(4,5,6) i])
  qed
  have grid: "linspace (Fin (xMin p)) (Fin (xMax p)) (nPoints p) = Inr (map Fin g)"
    by (simp add: linspace_fin[OF assms(7)] g_def o_def)
  have run: "interpolate_potential lib p
      = (case f (map Fin g) of Inl e \<Rightarrow> (Inl e, [])
         | Inr potential \<Rightarrow> (Inr potential, [Write_potential (map Fin g) potential (directory p)]))"
    by (simp add: interpolate_potential_def assms(1,2,3) grid f)
  have fg: "f (map Fin g) = (if (\<exists>x\<in>set g. x < Min (set xs) \<or> Max (set xs) < x) then Inl ValueError
                            else Inr (map (call_linear xs ys) (map Fin g)))"
    by (auto simp: f_def mm)
  have out: "interpolate_potential lib p = (Inl ValueError, [])"
    if "\<exists>x\<in>set g. x < Min (set xs) \<or> Max (set xs) < x"
    using that by (simp add: run fg)
  have inr: "\<exists>V. interpolate_potential lib p
               = (Inr (map Fin V), [Write_potential (map Fin g) (map Fin V) (directory p)]) \<and>
             length V = length g \<and>
             (\<forall>k<length g. \<exists>j. Suc j < length xs \<and> xs ! j \<le> g ! k \<and> g ! k \<le> xs ! Suc j \<and>
                  V ! k = segment_value xs ys j (g ! k))"
    if r: "\<forall>x\<in>set g. Min (set xs) \<le> x \<and> x \<le> Max (set xs)"
  proof -
    have "\<forall>x\<in>set g. \<exists>v. call_linear xs ys (Fin x) = Fin v \<and>
            (\<exists>j. Suc j < length xs \<and> xs ! j \<le> x \<and> x \<le> xs ! Suc j \<and> v = segment_value xs ys j x)"
    proof
      fix x assume "x \<in> set g"
      then have "hd xs \<le> x" "x \<le> last xs" using r by (simp_all add: mm)
      from call_linear_in_range[OF assms(4,5,6) this]
      show "\<exists>v. call_linear xs ys (Fin x) = Fin v \<and>
            (\<exists>j. Suc j < length xs \<and> xs ! j \<le> x \<and> x \<le> xs ! Suc j \<and> v = segment_value xs ys j x)"
        by blast
    qed
    then obtain h where h: "\<forall>x\<in>set g. call_linear xs ys (Fin x) = Fin (h x) \<and>
            (\<exists>j. Suc j < length xs \<and> xs ! j \<le> x \<and> x \<le> xs ! Suc j \<and> h x = segment_value xs ys j x)"
      using bchoice[of "set g" "\<lambda>x v. call_linear xs ys (Fin x) = Fin v \<and>
            (\<exists>j. Suc j < length xs \<and> xs ! j \<le> x \<and> x \<le> xs ! Suc j \<and> v = segment_value xs ys j x)"]
      by blast
    have v: "map (call_linear xs ys) (map Fin g) = map Fin (map h g)"
      using h by simp
    have nout: "\<not> (\<exists>x\<in>set g. x < Min (set xs) \<or> Max (set xs) < x)"
      using r by (auto simp: not_less)
    have "f (map Fin g) = Inr (map Fin (map h g))"
      unfolding fg v using nout by (simp only: if_False)
    then have "interpolate_potential lib p
               = (Inr (map Fin (map h g)), [Write_potential (map Fin g) (map Fin (map h g)) (directory p)])"
      unfolding run by (simp only: sum.case)
    moreover have "\<forall>k<length g. \<exists>j. Suc j < length xs \<and> xs ! j \<le> g ! k \<and> g ! k \<le> xs ! Suc j \<and>
                  map h g ! k = segment_value xs ys j (g ! k)"
      using h by simp
    ultimately show ?thesis by (intro exI[of _ "map h g"]) simp
  qed
  have iff: "(\<exists>e. fst (interpolate_potential lib p) = Inl e)
        \<longleftrightarrow> (\<exists>x\<in>set g. x < Min (set xs) \<or> Max (set xs) < x)"
    by (auto simp: run fg)
  from f ctrl grid iff out inr show ?thesis by blast
qed

text \<open>
  On four grid points over \<open>[0, 4]\<close>: control points \<open>(0, 0)\<close> and \<open>(4, 8)\<close> give the
  potential \<open>0, 8/3, 16/3, 8\<close>; control points at \<open>1\<close> and \<open>4\<close> leave the grid point \<open>0\<close>
  outside, and the stage fails.
\<close>

lemma interpolate_potential_example: "interpolate_potential lib0 (para0\<lparr>interpolation_points_y := [0, 8]\<rparr>)
  = (Inr [Fin 0, Fin (8/3), Fin (16/3), Fin 8],
     [Write_potential [Fin 0, Fin (4/3), Fin (8/3), Fin 4] [Fin 0, Fin (8/3), Fin (16/3), Fin 8] ''out''])"
  by (simp add: interpolate_potential_def para0_def linspace_para0 interp1d_def call_linear_def searchsorted_def py_index_def np_sub_def)

lemma interpolate_potential_outside: "interpolate_potential lib0 (para0\<lparr>interpolation_points_x := [1, 4]\<rparr>) = (Inl ValueError, [])"
  by (simp add: interpolate_potential_def para0_def linspace_para0 interp1d_def call_linear_def searchsorted_def py_index_def np_sub_def)

theorem linear_interpolation_witness:
  "\<exists>f g. interp1d ([0, 4]::real list) [0, 8] = Inr f \<and>
     (\<forall>i<length ([0, 4]::real list). f [Fin (([0, 4]::real list) ! i)] = Inr [Fin ([0, 8] ! i)]) \<and>
     linspace (Fin (xMin (para0\<lparr>interpolation_points_y := [0, 8]\<rparr>))) (Fin (xMax (para0\<lparr>interpolation_points_y := [0, 8]\<rparr>))) (nPoints (para0\<lparr>interpolation_points_y := [0, 8]\<rparr>)) = Inr (map Fin g) \<and>
     ((\<exists>e. fst (interpolate_potential lib0 (para0\<lparr>interpolation_points_y := [0, 8]\<rparr>)) = Inl e)
        \<longleftrightarrow> (\<exists>x\<in>set g. x < Min (set ([0, 4]::real list)) \<or> Max (set ([0, 4]::real list)) < x)) \<and>
     ((\<exists>x\<in>set g. x < Min (set ([0, 4]::real list)) \<or> Max (set ([0, 4]::real list)) < x)
        \<longrightarrow> interpolate_potential lib0 (para0\<lparr>interpolation_points_y := [0, 8]\<rparr>) = (Inl ValueError, [])) \<and>
     ((\<forall>x\<in>set g. Min (set ([0, 4]::real list)) \<le> x \<and> x \<le> Max (set ([0, 4]::real list))) \<longrightarrow>
        (\<exists>V. interpolate_potential lib0 (para0\<lparr>interpolation_points_y := [0, 8]\<rparr>)
               = (Inr (map Fin V), [Write_potential (map Fin g) (map Fin V) (directory (para0\<lparr>interpolation_points_y := [0, 8]\<rparr>))]) \<and>
             length V = length g \<and>
             (\<forall>k<length g. \<exists>j. Suc j < length ([0, 4]::real list) \<and> ([0, 4]::real list) ! j \<le> g ! k \<and> g ! k \<le> ([0, 4]::real list) ! Suc j \<and>
                  V ! k = segment_value ([0, 4]::real list) [0, 8] j (g ! k))))"
proof -
  have a: "interpolation_type (para0\<lparr>interpolation_points_y := [0, 8]\<rparr>) = ''linear''"
    and b: "interpolation_points_x (para0\<lparr>interpolation_points_y := [0, 8]\<rparr>) = [0, 4]"
    and c: "interpolation_points_y (para0\<lparr>interpolation_points_y := [0, 8]\<rparr>) = [0, 8]"
    and d: "length [0, 4::real] = length [0, 8::real]" and e: "2 \<le> length [0, 4::real]"
    and f: "sorted_wrt (<) [0, 4::real]"
    and g: "0 \<le> nPoints (para0\<lparr>interpolation_points_y := [0, 8]\<rparr>)"
    by (simp_all add: para0_def)
  show ?thesis
    by (rule linear_interpolation[OF a b c d e f g])
qed

end
